theory Spec2Isabelle
  imports Main
begin

section \<open>JavaScript values and objects\<close>

text \<open>
  The values that travel through server.js: the scalars of a JSON request body, and
  \<open>undefined\<close> for a property that is absent. A timestamp column is held as its
  epoch-millisecond number. An object is the list of its own properties in the order of
  \<open>Object.keys\<close>; a request body is such a list.
\<close>

datatype val = Undefined | Null | Bool bool | Num int | Str string

type_synonym 'v jsobj = "(string \<times> 'v) list"
type_synonym obj = "val jsobj"

text \<open>\<open>ob[k]\<close>: the value of a property, \<open>undefined\<close> when there is none.\<close>

definition field :: "obj \<Rightarrow> string \<Rightarrow> val" where
  "field ob k = (case map_of ob k of Some v \<Rightarrow> v | None \<Rightarrow> Undefined)"

text \<open>\<open>ob[k] = v\<close> on a plain object: an existing key keeps its place, a new key goes last.\<close>

fun obj_set :: "'v jsobj \<Rightarrow> string \<Rightarrow> 'v \<Rightarrow> 'v jsobj" where
  "obj_set [] k v = [(k, v)]"
| "obj_set ((k', v') # ob) k v =
     (if k' = k then (k, v) # ob else (k', v') # obj_set ob k v)"

text \<open>
  Assigning a string to the key \<open>__proto__\<close> of a plain object goes to the prototype
  setter, which ignores a value that is not an object: no own property appears.
\<close>

definition assign :: "string jsobj \<Rightarrow> string \<Rightarrow> string \<Rightarrow> string jsobj" where
  "assign ob k v = (if k = ''__proto__'' then ob else obj_set ob k v)"

text \<open>\<open>delete ob[k]\<close>.\<close>

definition obj_delete :: "string \<Rightarrow> 'v jsobj \<Rightarrow> 'v jsobj" where
  "obj_delete k ob = filter (\<lambda>p. fst p \<noteq> k) ob"

fun truthy :: "val \<Rightarrow> bool" where
  "truthy Undefined = False"
| "truthy Null = False"
| "truthy (Bool b) = b"
| "truthy (Num n) = (n \<noteq> 0)"
| "truthy (Str s) = (s \<noteq> [])"

section \<open>Strings\<close>

text \<open>\<open>s.split(c)\<close> for a one-character separator: never an empty array.\<close>

fun split_on :: "char \<Rightarrow> string \<Rightarrow> string list" where
  "split_on c [] = [[]]"
| "split_on c (x # xs) =
     (if x = c then [] # split_on c xs
      else (case split_on c xs of [] \<Rightarrow> [[x]] | p # ps \<Rightarrow> (x # p) # ps))"

text \<open>\<open>a[i]\<close> on an array: \<open>None\<close> stands for \<open>undefined\<close> past the end.\<close>

definition at_index :: "'a list \<Rightarrow> nat \<Rightarrow> 'a option" where
  "at_index xs i = (if i < length xs then Some (xs ! i) else None)"

definition startsWith :: "string \<Rightarrow> string \<Rightarrow> bool" where
  "startsWith s p = (take (length p) s = p)"

text \<open>\<open>s.substring(a, b)\<close> for \<open>a \<le> b\<close>.\<close>

definition substring :: "nat \<Rightarrow> nat \<Rightarrow> string \<Rightarrow> string" where
  "substring a b s = take (b - a) (drop a s)"

definition digit :: "nat \<Rightarrow> char" where
  "digit n = ''0123456789'' ! n"

text \<open>The decimal text of a number, as a template literal or \<open>String\<close> renders it.\<close>

function dec :: "nat \<Rightarrow> string" where
  "dec n = (if n < 10 then [digit n] else dec (n div 10) @ [digit (n mod 10)])"
  by pat_completeness auto
termination
  by (relation "measure (\<lambda>n. n)") auto

definition dec_int :: "int \<Rightarrow> string" where
  "dec_int i = (if i < 0 then CHR ''-'' # dec (nat (- i)) else dec (nat i))"

section \<open>The store and what else the server takes from outside\<close>

datatype failure =
    TypeError
  | IllegalArguments
  | UndefinedParameter
  | WrongArguments
  | BadField string

text \<open>
  The store is a list of rows and \<open>next_id\<close>, the identifier it gives to the next
  inserted row. A row is an object whose keys are the columns.
\<close>

record db =
  users :: "obj list"
  next_id :: int

text \<open>
  The libraries, the clock and the store are inputs of the model: the base64 decoding of
  \<open>Buffer.from(_, 'base64').toString('ascii')\<close> (total on strings), bcrypt's hash (with
  the salt it draws) and compare, the validator's \<open>isEmail\<close>, the store's \<open>NOW()\<close>,
  \<open>Date.now()\<close>, the text \<open>Math.random().toString(36)\<close> of the random number, the
  text \<open>String(n)\<close> of a number from \<open>1e21\<close> on, where it is no longer its digits,
  and \<open>other_statement\<close>: what \<open>pool.execute(query, values)\<close> does with the text of
  an UPDATE statement and its values when the statement is not one the model reads (see
  \<open>execute_update\<close> below).
\<close>

record env =
  b64decode :: "string \<Rightarrow> string"
  bcrypt_hash :: "string \<Rightarrow> string"
  bcrypt_compare :: "string \<Rightarrow> string \<Rightarrow> bool"
  is_email :: "string \<Rightarrow> bool"
  sql_now :: int
  date_now :: nat
  random36 :: string
  exponent_text :: "int \<Rightarrow> string"
  other_statement :: "string \<Rightarrow> val list \<Rightarrow> db \<Rightarrow> failure + db"

text \<open>bcryptjs rejects an argument that is not a string.\<close>

definition hash_password :: "env \<Rightarrow> val \<Rightarrow> failure + string" where
  "hash_password env v =
     (case v of Str s \<Rightarrow> Inr (bcrypt_hash env s) | _ \<Rightarrow> Inl IllegalArguments)"

definition compare_password :: "env \<Rightarrow> val \<Rightarrow> val \<Rightarrow> failure + bool" where
  "compare_password env p h =
     (case p of
        Str s \<Rightarrow> (case h of Str d \<Rightarrow> Inr (bcrypt_compare env s d) | _ \<Rightarrow> Inl IllegalArguments)
      | _ \<Rightarrow> Inl IllegalArguments)"

section \<open>Company identifiers\<close>

definition randomString :: "string \<Rightarrow> string" where
  "randomString r = substring 2 8 r"

definition generateCompanyId :: "nat \<Rightarrow> string \<Rightarrow> string" where
  "generateCompanyId timestamp r = ''CMP-'' @ dec timestamp @ randomString r"

section \<open>The users table\<close>

text \<open>
  A value is stored as it is bound (a boolean as 0 or 1, as the driver sends it); a
  comparison in a WHERE clause is equality of values and is never true of NULL. The store
  is taken to be reachable.
\<close>

text \<open>
  Modelled from the spec: the declaration of the users table is not in the source. Its
  columns are the attributes of User in the specification, which are also the columns
  that the statements of server.js name.
\<close>

definition columns :: "string list" where
  "columns = [''id'', ''first_name'', ''last_name'', ''email'', ''password'', ''type'',
     ''company_id'', ''subscription'', ''lang'', ''plan'', ''avatar'', ''created_by'',
     ''is_active'', ''is_login_enable'', ''dark_mode'', ''messenger_color'', ''is_disable'',
     ''created_at'', ''updated_at'', ''last_login'']"

fun to_sql :: "val \<Rightarrow> val" where
  "to_sql (Bool b) = Num (if b then 1 else 0)"
| "to_sql v = v"

fun sql_eq :: "val \<Rightarrow> val \<Rightarrow> bool" where
  "sql_eq Undefined w = False"
| "sql_eq Null w = False"
| "sql_eq v w = (v = to_sql w)"

text \<open>\<open>SELECT * FROM users WHERE email = ?\<close>\<close>

definition select_by_email :: "db \<Rightarrow> val \<Rightarrow> obj list" where
  "select_by_email d email = filter (\<lambda>r. sql_eq (field r ''email'') email) (users d)"

text \<open>\<open>SELECT * FROM users WHERE email = ? AND is_active = 1\<close>\<close>

definition select_active_by_email :: "db \<Rightarrow> val \<Rightarrow> obj list" where
  "select_active_by_email d email =
     filter (\<lambda>r. sql_eq (field r ''email'') email \<and> sql_eq (field r ''is_active'') (Num 1)) (users d)"

text \<open>\<open>SELECT * FROM users WHERE id = ?\<close>\<close>

definition select_by_id :: "db \<Rightarrow> val \<Rightarrow> obj list" where
  "select_by_id d i = filter (\<lambda>r. sql_eq (field r ''id'') i) (users d)"

text \<open>The driver refuses \<open>undefined\<close> among the bound values, before anything is sent.\<close>

definition bindable :: "val list \<Rightarrow> bool" where
  "bindable vs = (Undefined \<notin> set vs)"

text \<open>\<open>UPDATE users SET last_login = NOW() WHERE id = ?\<close>\<close>

definition touch_last_login :: "env \<Rightarrow> val \<Rightarrow> db \<Rightarrow> db" where
  "touch_last_login env i d =
     d\<lparr>users := map (\<lambda>r. if sql_eq (field r ''id'') i
                            then obj_set r ''last_login'' (Num (sql_now env)) else r) (users d)\<rparr>"

text \<open>
  The SET clause as the handler writes it: each key of \<open>updates\<close> with its right-hand
  side, \<open>?\<close> or \<open>NOW()\<close>. The placeholders take the bound values in order; the last
  value is the one of \<open>WHERE id = ?\<close>.
\<close>

fun set_clause :: "env \<Rightarrow> string jsobj \<Rightarrow> val list \<Rightarrow> obj \<Rightarrow> obj" where
  "set_clause env [] vs r = r"
| "set_clause env ((k, rhs) # us) vs r =
     (if rhs = ''?''
      then (case vs of [] \<Rightarrow> r | v # vs' \<Rightarrow> set_clause env us vs' (obj_set r k (to_sql v)))
      else set_clause env us vs (obj_set r k (Num (sql_now env))))"

definition placeholders :: "string jsobj \<Rightarrow> nat" where
  "placeholders us = length (filter (\<lambda>p. snd p = ''?'') us) + 1"

text \<open>The text of the statement, as the handler joins it.\<close>

fun join :: "string \<Rightarrow> string list \<Rightarrow> string" where
  "join sep [] = []"
| "join sep [x] = x"
| "join sep (x # y # ys) = x @ sep @ join sep (y # ys)"

definition query_text :: "string jsobj \<Rightarrow> string" where
  "query_text us =
     ''UPDATE users SET '' @ join '', '' (map (\<lambda>p. fst p @ '' = '' @ snd p) us) @ '' WHERE id = ?''"

text \<open>
  \<open>pool.execute(query, values)\<close> for the statement of update-profile. The handler
  splices each key of \<open>updates\<close> into the text as it is written and sends the values
  as they are. The model reads the statement when every key is the name of a column and
  the values are as many as the placeholders: then each column takes its value, in the
  rows whose id is the last value. Any other statement (a key that is not a column name
  as written, be it another spelling of one or a piece of SQL, or values that do not match
  the placeholders in number) is not decided by the source: its outcome is
  \<open>other_statement\<close>, an input of the model, given the text and the values.
\<close>

definition execute_update :: "env \<Rightarrow> string jsobj \<Rightarrow> val list \<Rightarrow> db \<Rightarrow> failure + db" where
  "execute_update env us vs d =
     (if \<not> bindable vs then Inl UndefinedParameter
      else if filter (\<lambda>k. k \<notin> set columns) (map fst us) = [] \<and> placeholders us = length vs
      then Inr (d\<lparr>users := map (\<lambda>r. if sql_eq (field r ''id'') (last vs)
                                       then set_clause env us vs r else r) (users d)\<rparr>)
      else other_statement env (query_text us) vs d)"

section \<open>Responses\<close>

record response =
  status :: nat
  ok :: bool
  message :: string
  errors :: "(string \<times> val \<times> string) list"
  failure :: "failure option"
  user :: "obj option"

definition reject :: "nat \<Rightarrow> string \<Rightarrow> response" where
  "reject code msg =
     \<lparr>status = code, ok = False, message = msg, errors = [], failure = None, user = None\<rparr>"

definition validation_errors :: "(string \<times> val \<times> string) list \<Rightarrow> response" where
  "validation_errors es =
     \<lparr>status = 400, ok = False, message = ''Validation errors'', errors = es,
      failure = None, user = None\<rparr>"

definition internal_error :: "failure \<Rightarrow> response" where
  "internal_error e =
     \<lparr>status = 500, ok = False, message = ''Internal server error'', errors = [],
      failure = Some e, user = None\<rparr>"

definition success :: "nat \<Rightarrow> string \<Rightarrow> obj option \<Rightarrow> response" where
  "success code msg u =
     \<lparr>status = code, ok = True, message = msg, errors = [], failure = None, user = u\<rparr>"

text \<open>\<open>const userData = { ...row }; delete userData.password\<close>, where the row may be \<open>undefined\<close>.\<close>

definition userData :: "obj option \<Rightarrow> obj" where
  "userData row = obj_delete ''password'' (case row of None \<Rightarrow> [] | Some r \<Rightarrow> r)"

definition first_row :: "obj list \<Rightarrow> obj option" where
  "first_row rows = (case rows of [] \<Rightarrow> None | r # _ \<Rightarrow> Some r)"

section \<open>Request validation\<close>

text \<open>
  The validator runs its checks on the text of the field's value, \<open>String(value)\<close>
  for a number: its decimal digits below \<open>1e21\<close> in magnitude, the exponent form from
  there on.
\<close>

fun to_string :: "env \<Rightarrow> val \<Rightarrow> string" where
  "to_string env Undefined = []"
| "to_string env Null = []"
| "to_string env (Bool b) = (if b then ''true'' else ''false'')"
| "to_string env (Num n) =
     (if \<bar>n\<bar> < 1000000000000000000000 then dec_int n else exponent_text env n)"
| "to_string env (Str s) = s"

definition check :: "env \<Rightarrow> obj \<Rightarrow> string \<Rightarrow> (string \<Rightarrow> bool) \<Rightarrow> string \<Rightarrow> (string \<times> val \<times> string) list" where
  "check env body name good msg =
     (if good (to_string env (field body name)) then [] else [(name, field body name, msg)])"

definition check_optional :: "env \<Rightarrow> obj \<Rightarrow> string \<Rightarrow> (string \<Rightarrow> bool) \<Rightarrow> string \<Rightarrow> (string \<times> val \<times> string) list" where
  "check_optional env body name good msg =
     (if field body name = Undefined then [] else check env body name good msg)"

definition notEmpty :: "string \<Rightarrow> bool" where
  "notEmpty s = (s \<noteq> [])"

definition validate_register :: "env \<Rightarrow> obj \<Rightarrow> (string \<times> val \<times> string) list" where
  "validate_register env body =
     check env body ''first_name'' notEmpty ''First name is required''
   @ check env body ''last_name'' notEmpty ''Last name is required''
   @ check env body ''email'' (is_email env) ''Valid email is required''
   @ check env body ''password'' (\<lambda>s. 6 \<le> length s) ''Password must be at least 6 characters''
   @ check env body ''type'' (\<lambda>s. s \<in> set [''company'', ''employee'', ''admin''])
       ''Type must be company, employee, or admin''"

definition validate_login :: "env \<Rightarrow> obj \<Rightarrow> (string \<times> val \<times> string) list" where
  "validate_login env body =
     check env body ''email'' (is_email env) ''Valid email is required''
   @ check env body ''password'' notEmpty ''Password is required''"

definition validate_update :: "env \<Rightarrow> obj \<Rightarrow> (string \<times> val \<times> string) list" where
  "validate_update env body =
     check_optional env body ''first_name'' notEmpty ''First name cannot be empty''
   @ check_optional env body ''last_name'' notEmpty ''Last name cannot be empty''
   @ check_optional env body ''subscription''
       (\<lambda>s. s \<in> set [''Basic'', ''Silver'', ''Premium'', ''Enterprise'']) ''Invalid subscription type''"

section \<open>The authentication gate\<close>

text \<open>
  \<open>authenticateUser\<close>: \<open>Inl\<close> is the response the gate sends itself, \<open>Inr\<close> the
  user it attaches to the request before \<open>next()\<close>. The \<open>catch\<close> answers 403.
\<close>

definition base64Credentials :: "string \<Rightarrow> string option" where
  "base64Credentials authHeader = at_index (split_on CHR '' '' authHeader) 1"

text \<open>\<open>const [email, password] = credentials.split(':')\<close>\<close>

definition split_credentials :: "string \<Rightarrow> string option \<times> string option" where
  "split_credentials credentials =
     (let parts = split_on CHR '':'' credentials in (at_index parts 0, at_index parts 1))"

definition authenticateUser :: "env \<Rightarrow> db \<Rightarrow> string option \<Rightarrow> response + obj" where
  "authenticateUser env d authorization =
     (case authorization of
        None \<Rightarrow> Inl (reject 401 ''Basic authentication required'')
      | Some authHeader \<Rightarrow>
          if authHeader = [] \<or> \<not> startsWith authHeader ''Basic ''
          then Inl (reject 401 ''Basic authentication required'')
          else (case base64Credentials authHeader of
             None \<Rightarrow> Inl (reject 403 ''Authentication failed'')
           | Some b \<Rightarrow>
              (case split_credentials (b64decode env b) of
                 (Some email, Some password) \<Rightarrow>
                   if email = [] \<or> password = []
                   then Inl (reject 401 ''Email and password required'')
                   else (case select_active_by_email d (Str email) of
                      [] \<Rightarrow> Inl (reject 401 ''Invalid credentials'')
                    | u # _ \<Rightarrow>
                        if \<not> truthy (field u ''is_login_enable'')
                        then Inl (reject 403 ''Login is disabled for this account'')
                        else (case compare_password env (Str password) (field u ''password'') of
                           Inl e \<Rightarrow> Inl (reject 403 ''Authentication failed'')
                         | Inr valid \<Rightarrow>
                             if \<not> valid then Inl (reject 401 ''Invalid credentials'')
                             else Inr u))
               | _ \<Rightarrow> Inl (reject 401 ''Email and password required''))))"

section \<open>Register\<close>

definition insert_columns :: "string list" where
  "insert_columns = [''first_name'', ''last_name'', ''email'', ''password'', ''type'',
     ''company_id'', ''subscription'', ''lang'', ''plan'', ''avatar'', ''created_by'',
     ''is_active'', ''is_login_enable'', ''dark_mode'', ''messenger_color'', ''is_disable'']"

text \<open>
  \<open>INSERT INTO users (...) VALUES (?, ..., ?, NOW(), NOW())\<close>: the result is the
  identifier of the new row and the new table.
\<close>

definition new_row :: "env \<Rightarrow> int \<Rightarrow> val list \<Rightarrow> obj" where
  "new_row env i vs =
     (''id'', Num i) # zip insert_columns (map to_sql vs) @
     [(''created_at'', Num (sql_now env)), (''updated_at'', Num (sql_now env)),
      (''last_login'', Null)]"

definition insert_user :: "env \<Rightarrow> db \<Rightarrow> val list \<Rightarrow> failure + (int \<times> db)" where
  "insert_user env d vs =
     (if \<not> bindable vs then Inl UndefinedParameter
      else if length vs \<noteq> length insert_columns then Inl WrongArguments
      else Inr (next_id d,
        d\<lparr>users := users d @ [new_row env (next_id d) vs], next_id := next_id d + 1\<rparr>))"

text \<open>A destructuring default: \<open>const { lang = 'en' } = req.body\<close>.\<close>

definition or_default :: "val \<Rightarrow> val \<Rightarrow> val" where
  "or_default v dflt = (if v = Undefined then dflt else v)"

text \<open>\<open>type === 'company' ? generateCompanyId() : null\<close>\<close>

definition companyId :: "env \<Rightarrow> val \<Rightarrow> val" where
  "companyId env type =
     (if type = Str ''company'' then Str (generateCompanyId (date_now env) (random36 env))
      else Null)"

text \<open>The values bound by the INSERT, in the order of the source.\<close>

definition insert_values :: "env \<Rightarrow> obj \<Rightarrow> string \<Rightarrow> val list" where
  "insert_values env body hashedPassword =
     [field body ''first_name'',
      field body ''last_name'',
      field body ''email'',
      Str hashedPassword,
      field body ''type'',
      companyId env (field body ''type''),
      Str ''Basic'',
      or_default (field body ''lang'') (Str ''en''),
      Num 0,
      or_default (field body ''avatar'') (Str []),
      Num 0,
      Num 1,
      Num 1,
      Num 0,
      Str ''#2180f3'',
      Num 1]"

definition register :: "env \<Rightarrow> db \<Rightarrow> obj \<Rightarrow> response \<times> db" where
  "register env d body =
     (let errs = validate_register env body in
      if errs \<noteq> [] then (validation_errors errs, d)
      else if \<not> bindable [field body ''email''] then (internal_error UndefinedParameter, d)
      else if select_by_email d (field body ''email'') \<noteq> []
      then (reject 400 ''Email already registered'', d)
      else (case hash_password env (field body ''password'') of
         Inl e \<Rightarrow> (internal_error e, d)
       | Inr hashedPassword \<Rightarrow>
          (case insert_user env d (insert_values env body hashedPassword) of
             Inl e \<Rightarrow> (internal_error e, d)
           | Inr (insertId, d') \<Rightarrow>
               (success 201 ''User registered successfully''
                  (Some (userData (first_row (select_by_id d' (Num insertId))))), d'))))"

section \<open>Login\<close>

definition login :: "env \<Rightarrow> db \<Rightarrow> obj \<Rightarrow> response \<times> db" where
  "login env d body =
     (let errs = validate_login env body in
      if errs \<noteq> [] then (validation_errors errs, d)
      else
        let email = field body ''email'';
            password = field body ''password''
        in
          if \<not> bindable [email] then (internal_error UndefinedParameter, d)
          else (case select_by_email d email of
             [] \<Rightarrow> (reject 401 ''Invalid email or password'', d)
           | u # _ \<Rightarrow>
               if \<not> truthy (field u ''is_active'')
               then (reject 403 ''Account is not active'', d)
               else if \<not> truthy (field u ''is_login_enable'')
               then (reject 403 ''Login is disabled for this account'', d)
               else (case compare_password env password (field u ''password'') of
                  Inl e \<Rightarrow> (internal_error e, d)
                | Inr valid \<Rightarrow>
                    if \<not> valid then (reject 401 ''Invalid email or password'', d)
                    else if \<not> bindable [field u ''id''] then (internal_error UndefinedParameter, d)
                    else (success 200 ''Login successful'' (Some (userData (Some u))),
                          touch_last_login env (field u ''id'') d))))"

section \<open>Profile\<close>

definition get_profile :: "env \<Rightarrow> db \<Rightarrow> string option \<Rightarrow> response" where
  "get_profile env d authorization =
     (case authenticateUser env d authorization of
        Inl r \<Rightarrow> r
      | Inr u \<Rightarrow> success 200 ''Profile retrieved successfully'' (Some (userData (Some u))))"

definition logout :: "env \<Rightarrow> db \<Rightarrow> string option \<Rightarrow> response" where
  "logout env d authorization =
     (case authenticateUser env d authorization of
        Inl r \<Rightarrow> r
      | Inr u \<Rightarrow> success 200 ''Logged out successfully'' None)"

text \<open>
  \<open>planMap[req.body.subscription]\<close>. Outside the four names the lookup gives nothing
  that the driver accepts as a bound value; the model writes \<open>undefined\<close> for it.
\<close>

definition planMap :: "val \<Rightarrow> val" where
  "planMap v =
     (case v of
        Str s \<Rightarrow>
          if s = ''Basic'' then Num 0
          else if s = ''Silver'' then Num 1
          else if s = ''Premium'' then Num 2
          else if s = ''Enterprise'' then Num 3
          else Undefined
      | _ \<Rightarrow> Undefined)"

text \<open>One turn of the loop over \<open>Object.keys(req.body)\<close>.\<close>

definition push_field :: "obj \<Rightarrow> string jsobj \<times> val list \<Rightarrow> string \<Rightarrow> string jsobj \<times> val list" where
  "push_field body acc key =
     (if field body key \<noteq> Undefined \<and> key \<noteq> ''password''
      then (assign (fst acc) key ''?'', snd acc @ [field body key])
      else acc)"

text \<open>
  The statement of the update handler: \<open>updates\<close> and \<open>values\<close> as they stand when
  \<open>pool.execute\<close> is called, or \<open>None\<close> when the handler answers that there is nothing
  to update.
\<close>

definition build_update :: "obj \<Rightarrow> val \<Rightarrow> (string jsobj \<times> val list) option" where
  "build_update body userId =
     (let looped = foldl (push_field body) ([], []) (map fst body) in
      if snd looped = [] then None
      else
        let planned =
              (if truthy (field body ''subscription'')
               then (assign (fst looped) ''plan'' ''?'',
                     snd looped @ [planMap (field body ''subscription'')])
               else looped)
        in Some (assign (fst planned) ''updated_at'' ''NOW()'', snd planned @ [userId]))"

definition update_profile :: "env \<Rightarrow> db \<Rightarrow> string option \<Rightarrow> obj \<Rightarrow> response \<times> db" where
  "update_profile env d authorization body =
     (case authenticateUser env d authorization of
        Inl r \<Rightarrow> (r, d)
      | Inr u \<Rightarrow>
          (let errs = validate_update env body in
           if errs \<noteq> [] then (validation_errors errs, d)
           else (case build_update body (field u ''id'') of
              None \<Rightarrow> (reject 400 ''No valid fields to update'', d)
            | Some (updates, vals) \<Rightarrow>
                (case execute_update env updates vals d of
                   Inl e \<Rightarrow> (internal_error e, d)
                 | Inr d' \<Rightarrow>
                     (success 200 ''Profile updated successfully''
                        (Some (userData (first_row (select_by_id d' (field u ''id''))))), d')))))"

section \<open>A small installation\<close>

text \<open>
  The example of the specification: the user registered from
  \<open>{first_name: "A", last_name: "B", email: "a@b.com", password: "secret1", type: "employee"}\<close>,
  with stand-ins for the libraries: a decoder that knows the payloads used here, a hash
  that prefixes its input, an e-mail check that looks for the at sign, and a store that
  refuses every statement the model does not read.
\<close>

definition demo_env :: env where
  "demo_env =
     \<lparr>b64decode = (\<lambda>s. if s = ''YUBiLmNvbTpzZWNyZXQx'' then ''a@b.com:secret1''
                          else if s = ''YUBiLmNvbTpwYTpzc3dvcmQ='' then ''a@b.com:pa:ssword''
                          else if s = ''YUBiLmNvbQ=='' then ''a@b.com''
                          else []),
      bcrypt_hash = (\<lambda>s. ''$2a$10$'' @ s),
      bcrypt_compare = (\<lambda>s h. h = ''$2a$10$'' @ s),
      is_email = (\<lambda>s. CHR ''@'' \<in> set s),
      sql_now = 1700000000500,
      date_now = 1700000000000,
      random36 = ''0.4fzyo82mvyr'',
      exponent_text = (\<lambda>n. ''1e+21''),
      other_statement = (\<lambda>q vs d. Inl WrongArguments)\<rparr>"

definition alice :: obj where
  "alice =
     [(''id'', Num 1), (''first_name'', Str ''A''), (''last_name'', Str ''B''),
      (''email'', Str ''a@b.com''), (''password'', Str ''$2a$10$secret1''),
      (''type'', Str ''employee''), (''company_id'', Null), (''subscription'', Str ''Basic''),
      (''lang'', Str ''en''), (''plan'', Num 0), (''avatar'', Str []), (''created_by'', Num 0),
      (''is_active'', Num 1), (''is_login_enable'', Num 1), (''dark_mode'', Num 0),
      (''messenger_color'', Str ''#2180f3''), (''is_disable'', Num 1),
      (''created_at'', Num 1600000000000), (''updated_at'', Num 1600000000000),
      (''last_login'', Null)]"

definition demo_db :: db where
  "demo_db = \<lparr>users = [alice], next_id = 2\<rparr>"

definition alice_header :: "string option" where
  "alice_header = Some ''Basic YUBiLmNvbTpzZWNyZXQx''"

text \<open>The same user with the password \<open>pa:ssword\<close>, and a request that overreaches.\<close>

definition colon_db :: db where
  "colon_db = \<lparr>users = [obj_set alice ''password'' (Str ''$2a$10$pa:ssword'')], next_id = 2\<rparr>"

definition colon_header :: "string option" where
  "colon_header = Some ''Basic YUBiLmNvbTpwYTpzc3dvcmQ=''"

text \<open>The same user, deactivated.\<close>

definition inactive_db :: db where
  "inactive_db = \<lparr>users = [obj_set alice ''is_active'' (Num 0)], next_id = 2\<rparr>"

text \<open>The same user, closed to login.\<close>

definition closed_db :: db where
  "closed_db = \<lparr>users = [obj_set alice ''is_login_enable'' (Num 0)], next_id = 2\<rparr>"

definition greedy_body :: obj where
  "greedy_body =
     [(''first_name'', Str ''A''), (''last_name'', Str ''B''), (''email'', Str ''a@b.com''),
      (''password'', Str ''secret1''), (''type'', Str ''company''),
      (''subscription'', Str ''Premium''), (''plan'', Num 3), (''is_active'', Num 0),
      (''created_by'', Num 7), (''messenger_color'', Str ''#000000'')]"

text \<open>The row that registering \<open>greedy_body\<close> on an empty table creates.\<close>

definition acme :: obj where
  "acme =
     [(''id'', Num 1), (''first_name'', Str ''A''), (''last_name'', Str ''B''),
      (''email'', Str ''a@b.com''), (''password'', Str ''$2a$10$secret1''),
      (''type'', Str ''company''), (''company_id'', Str ''CMP-17000000000004fzyo8''),
      (''subscription'', Str ''Basic''), (''lang'', Str ''en''), (''plan'', Num 0),
      (''avatar'', Str []), (''created_by'', Num 0), (''is_active'', Num 1),
      (''is_login_enable'', Num 1), (''dark_mode'', Num 0),
      (''messenger_color'', Str ''#2180f3''), (''is_disable'', Num 1),
      (''created_at'', Num 1700000000500), (''updated_at'', Num 1700000000500),
      (''last_login'', Null)]"

definition empty_db :: db where
  "empty_db = \<lparr>users = [], next_id = 1\<rparr>"

text \<open>Bodies for update-profile: one that reaches for other columns, one with a plan of its own.\<close>

definition meddling_body :: obj where
  "meddling_body = [(''first_name'', Str ''Z''), (''password'', Str ''hunter22''),
      (''created_by'', Num 5), (''type'', Str ''admin'')]"

definition both_body :: obj where
  "both_body = [(''plan'', Num 7), (''subscription'', Str ''Enterprise'')]"



text \<open>
  A store that does not count the values: it binds them to the placeholders in order
  and leaves the rest, for the two statements used here.
\<close>

definition by_position :: "env \<Rightarrow> string jsobj \<Rightarrow> val list \<Rightarrow> db \<Rightarrow> failure + db" where
  "by_position env us vs d =
     (if length vs < placeholders us then Inl WrongArguments
      else Inr (d\<lparr>users := map (\<lambda>r. if sql_eq (field r ''id'') (vs ! (placeholders us - 1))
                                       then set_clause env us vs r else r) (users d)\<rparr>))"

definition lax_env :: env where
  "lax_env = demo_env
     \<lparr>other_statement := (\<lambda>q vs d.
        if q = ''UPDATE users SET subscription = ?, plan = ?, updated_at = NOW() WHERE id = ?''
        then by_position demo_env
               [(''subscription'', ''?''), (''plan'', ''?''), (''updated_at'', ''NOW()'')] vs d
        else if q = ''UPDATE users SET plan = ?, subscription = ?, updated_at = NOW() WHERE id = ?''
        then by_position demo_env
               [(''plan'', ''?''), (''subscription'', ''?''), (''updated_at'', ''NOW()'')] vs d
        else Inl WrongArguments)\<rparr>"

definition alice_login :: obj where
  "alice_login = [(''email'', Str ''a@b.com''), (''password'', Str ''secret1'')]"

section \<open>Basic facts\<close>

declare dec.simps [simp del]

lemma field_Nil [simp]: "field [] k = Undefined"
  by (simp add: field_def)

lemma field_Cons [simp]: "field ((k, v) # ob) k' = (if k' = k then v else field ob k')"
  by (simp add: field_def)

lemma field_obj_set: "field (obj_set r k v) k' = (if k' = k then v else field r k')"
  by (induction r) auto

lemma field_obj_delete: "field (obj_delete k r) k' = (if k' = k then Undefined else field r k')"
  by (induction r) (auto simp: obj_delete_def)

lemma keys_obj_delete: "k \<notin> fst ` set (obj_delete k r)"
  by (auto simp: obj_delete_def)

lemma userData_no_password: "''password'' \<notin> fst ` set (userData row)"
  by (simp add: userData_def keys_obj_delete)

lemma user_reject [simp]: "user (reject c m) = None"
  by (simp add: reject_def)

lemma user_validation_errors [simp]: "user (validation_errors es) = None"
  by (simp add: validation_errors_def)

lemma user_internal_error [simp]: "user (internal_error e) = None"
  by (simp add: internal_error_def)

lemma user_success [simp]: "user (success c m x) = x"
  by (simp add: success_def)

lemma status_reject [simp]: "status (reject c m) = c"
  by (simp add: reject_def)

lemma status_validation_errors [simp]: "status (validation_errors es) = 400"
  by (simp add: validation_errors_def)

lemma status_internal_error [simp]: "status (internal_error e) = 500"
  by (simp add: internal_error_def)

lemma status_success [simp]: "status (success c m x) = c"
  by (simp add: success_def)

lemma alice_fields:
  "field alice ''email'' = Str ''a@b.com''"
  "field alice ''id'' = Num 1"
  "field alice ''password'' = Str ''$2a$10$secret1''"
  "field alice ''is_active'' = Num 1"
  "field alice ''is_login_enable'' = Num 1"
  "field alice ''plan'' = Num 0"
  "field alice ''last_login'' = Null"
  by (simp_all add: alice_def)

subsection \<open>The gate and the handlers on the example\<close>

lemma gate_response_has_no_user:
  "authenticateUser env d a = Inl r \<Longrightarrow> user r = None"
  by (auto simp: authenticateUser_def
      split: option.splits if_splits list.splits sum.splits prod.splits)

lemma gate_response_status:
  "authenticateUser env d a = Inl r \<Longrightarrow> status r = 401 \<or> status r = 403"
  by (auto simp: authenticateUser_def
      split: option.splits if_splits list.splits sum.splits prod.splits)

lemma demo_gate: "authenticateUser demo_env demo_db alice_header = Inr alice"
  by (simp add: authenticateUser_def alice_header_def startsWith_def base64Credentials_def
      at_index_def split_credentials_def demo_env_def demo_db_def select_active_by_email_def
      alice_fields compare_password_def)

lemma demo_login:
  "login demo_env demo_db alice_login =
     (success 200 ''Login successful'' (Some (userData (Some alice))),
      touch_last_login demo_env (Num 1) demo_db)"
  by (simp add: login_def validate_login_def check_def notEmpty_def alice_login_def Let_def
      demo_env_def demo_db_def select_by_email_def alice_fields bindable_def
      compare_password_def)

section \<open>Registration\<close>

lemma register_created:
  "status (fst (register env d body)) = 201 \<Longrightarrow>
   \<exists>h. snd (register env d body) =
     d\<lparr>users := users d @ [new_row env (next_id d) (insert_values env body h)], next_id := next_id d + 1\<rparr>"
  by (auto simp: register_def Let_def insert_user_def split: if_splits sum.splits prod.splits)

lemma new_row_defaults:
  "field (new_row env i (insert_values env body h)) ''subscription'' = Str ''Basic''"
  "field (new_row env i (insert_values env body h)) ''plan'' = Num 0"
  "field (new_row env i (insert_values env body h)) ''is_active'' = Num 1"
  "field (new_row env i (insert_values env body h)) ''is_login_enable'' = Num 1"
  "field (new_row env i (insert_values env body h)) ''is_disable'' = Num 1"
  "field (new_row env i (insert_values env body h)) ''dark_mode'' = Num 0"
  "field (new_row env i (insert_values env body h)) ''created_by'' = Num 0"
  "field (new_row env i (insert_values env body h)) ''messenger_color'' = Str ''#2180f3''"
  by (simp_all add: new_row_def insert_values_def insert_columns_def)

lemma new_row_company:
  "field (new_row env i (insert_values env body h)) ''company_id'' = companyId env (field body ''type'')"
  "field (new_row env i (insert_values env body h)) ''type'' = to_sql (field body ''type'')"
  by (simp_all add: new_row_def insert_values_def insert_columns_def companyId_def)

lemma to_sql_Str: "to_sql v = Str s \<longleftrightarrow> v = Str s"
  by (cases v) auto

lemma dec_demo: "dec 1700000000000 = ''1700000000000''"
  by (simp add: dec.simps [of "numeral k" for k] dec.simps [of 1] dec.simps [of "Suc 0"] digit_def)

lemma demo_company_id: "generateCompanyId 1700000000000 ''0.4fzyo82mvyr'' = ''CMP-17000000000004fzyo8''"
  by (simp add: generateCompanyId_def dec_demo randomString_def substring_def)

lemma demo_insert_values:
  "insert_values demo_env greedy_body h =
     [Str ''A'', Str ''B'', Str ''a@b.com'', Str h, Str ''company'', Str ''CMP-17000000000004fzyo8'',
      Str ''Basic'', Str ''en'', Num 0, Str [], Num 0, Num 1, Num 1, Num 0, Str ''#2180f3'', Num 1]"
  by (simp add: insert_values_def greedy_body_def or_default_def companyId_def demo_company_id demo_env_def)

lemma demo_register:
  "register demo_env empty_db greedy_body =
    (success 201 ''User registered successfully'' (Some (userData (Some acme))),
     \<lparr>users = [acme], next_id = 2\<rparr>)"
proof -
  have v: "validate_register demo_env greedy_body = []"
    by (simp add: validate_register_def check_def notEmpty_def greedy_body_def demo_env_def)
  have e: "field greedy_body ''email'' = Str ''a@b.com''" "field greedy_body ''password'' = Str ''secret1''"
    by (simp_all add: greedy_body_def)
  have h: "hash_password demo_env (Str ''secret1'') = Inr ''$2a$10$secret1''"
    by (simp add: hash_password_def demo_env_def)
  have i: "insert_user demo_env empty_db (insert_values demo_env greedy_body ''$2a$10$secret1'') =
      Inr (1, \<lparr>users = [acme], next_id = 2\<rparr>)"
    unfolding demo_insert_values
    by (simp add: insert_user_def bindable_def insert_columns_def new_row_def empty_db_def acme_def demo_env_def)
  have s: "first_row (select_by_id \<lparr>users = [acme], next_id = 2\<rparr> (Num 1)) = Some acme"
    by (simp add: select_by_id_def first_row_def acme_def)
  have n: "select_by_email empty_db (Str ''a@b.com'') = []"
    by (simp add: select_by_email_def empty_db_def)
  show ?thesis
    by (simp add: register_def v e h i s n bindable_def)
qed

text \<open>
  C7. A successful registration appends one row to the table, and in that row
  subscription is "Basic", plan 0, is_active 1, is_login_enable 1, is_disable 1,
  dark_mode 0, created_by 0 and messenger_color "#2180f3", whatever the request body holds.
\<close>

theorem register_fixed_defaults:
  assumes "register env d body = (r, d')" and "status r = 201"
  shows "\<exists>row. users d' = users d @ [row] \<and>
     field row ''subscription'' = Str ''Basic'' \<and> field row ''plan'' = Num 0 \<and>
     field row ''is_active'' = Num 1 \<and> field row ''is_login_enable'' = Num 1 \<and>
     field row ''is_disable'' = Num 1 \<and> field row ''dark_mode'' = Num 0 \<and>
     field row ''created_by'' = Num 0 \<and> field row ''messenger_color'' = Str ''#2180f3''"
proof -
  from assms have "status (fst (register env d body)) = 201" by simp
  from register_created [OF this] assms(1) obtain h where
    "d' = d\<lparr>users := users d @ [new_row env (next_id d) (insert_values env body h)], next_id := next_id d + 1\<rparr>"
    by auto
  then have "users d' = users d @ [new_row env (next_id d) (insert_values env body h)]"
    by simp
  then show ?thesis
    using new_row_defaults [of env "next_id d" body h] by blast
qed

theorem register_fixed_defaults_witness:
  "register demo_env empty_db greedy_body =
     (success 201 ''User registered successfully'' (Some (userData (Some acme))),
      \<lparr>users = [acme], next_id = 2\<rparr>) \<and>
   field greedy_body ''subscription'' = Str ''Premium'' \<and>
   field greedy_body ''plan'' = Num 3 \<and>
   field greedy_body ''is_active'' = Num 0 \<and>
   (\<exists>row. users \<lparr>users = [acme], next_id = 2\<rparr> = users empty_db @ [row] \<and>
     field row ''subscription'' = Str ''Basic'' \<and> field row ''plan'' = Num 0 \<and>
     field row ''is_active'' = Num 1 \<and> field row ''is_login_enable'' = Num 1 \<and>
     field row ''is_disable'' = Num 1 \<and> field row ''dark_mode'' = Num 0 \<and>
     field row ''created_by'' = Num 0 \<and> field row ''messenger_color'' = Str ''#2180f3'')"
proof -
  have b: "field greedy_body ''subscription'' = Str ''Premium''"
    "field greedy_body ''plan'' = Num 3" "field greedy_body ''is_active'' = Num 0"
    by (simp_all add: greedy_body_def)
  have s: "status (success 201 ''User registered successfully'' (Some (userData (Some acme)))) = 201"
    by simp
  from register_fixed_defaults [OF demo_register s] demo_register b show ?thesis
    by blast
qed

section \<open>Company identifiers at registration\<close>

text \<open>
  C8, as stated, fails: the random part is not always six characters long. When
  \<open>Math.random()\<close> is one half, its base-36 text is \<open>0.i\<close> and the random part is the
  single character \<open>i\<close>.
\<close>

theorem company_id_short_random_part:
  "randomString ''0.i'' = ''i'' \<and> length (randomString ''0.i'') \<noteq> 6 \<and>
   generateCompanyId 1700000000000 ''0.i'' = ''CMP-1700000000000i''"
  by (simp add: generateCompanyId_def randomString_def substring_def dec_demo)

text \<open>
  C8, amended. A company identifier is \<open>CMP-\<close>, then the decimal text of the
  epoch-millisecond timestamp, then the characters at positions 2 to 7 of the base-36 text
  of the random number: at most six characters, and six when that text has at least eight.
  The row created by a successful registration has a company identifier other than NULL
  exactly when its type is \<open>company\<close>, and then it is a generated identifier.
\<close>

theorem company_id_format:
  "generateCompanyId t r = ''CMP-'' @ dec t @ take 6 (drop 2 r) \<and>
   length (take 6 (drop 2 r)) \<le> 6 \<and>
   (8 \<le> length r \<longrightarrow> length (take 6 (drop 2 r)) = 6) \<and>
   (status (fst (register env d body)) = 201 \<longrightarrow>
     (\<exists>row. users (snd (register env d body)) = users d @ [row] \<and>
        (field row ''company_id'' \<noteq> Null \<longleftrightarrow> field row ''type'' = Str ''company'') \<and>
        (field row ''type'' = Str ''company'' \<longrightarrow>
           field row ''company_id'' = Str (generateCompanyId (date_now env) (random36 env)))))"
proof (intro conjI impI)
  show "generateCompanyId t r = ''CMP-'' @ dec t @ take 6 (drop 2 r)"
    by (simp add: generateCompanyId_def randomString_def substring_def)
  show "length (take 6 (drop 2 r)) \<le> 6"
    by simp
  show "length (take 6 (drop 2 r)) = 6" if "8 \<le> length r"
    using that by simp
  show "\<exists>row. users (snd (register env d body)) = users d @ [row] \<and>
        (field row ''company_id'' \<noteq> Null \<longleftrightarrow> field row ''type'' = Str ''company'') \<and>
        (field row ''type'' = Str ''company'' \<longrightarrow>
           field row ''company_id'' = Str (generateCompanyId (date_now env) (random36 env)))"
    if "status (fst (register env d body)) = 201"
  proof -
    from register_created [OF that] obtain h where
      "users (snd (register env d body)) = users d @ [new_row env (next_id d) (insert_values env body h)]"
      by auto
    moreover have "field (new_row env (next_id d) (insert_values env body h)) ''company_id'' \<noteq> Null
        \<longleftrightarrow> field (new_row env (next_id d) (insert_values env body h)) ''type'' = Str ''company''"
      by (simp add: new_row_company to_sql_Str companyId_def)
    moreover have "field (new_row env (next_id d) (insert_values env body h)) ''type'' = Str ''company'' \<longrightarrow>
        field (new_row env (next_id d) (insert_values env body h)) ''company_id'' =
          Str (generateCompanyId (date_now env) (random36 env))"
      by (simp add: new_row_company to_sql_Str companyId_def)
    ultimately show ?thesis
      by blast
  qed
qed

theorem company_id_format_witness:
  "8 \<le> length ''0.4fzyo82mvyr'' \<and> length (take 6 (drop 2 ''0.4fzyo82mvyr'')) = 6 \<and>
   generateCompanyId 1700000000000 ''0.4fzyo82mvyr'' = ''CMP-17000000000004fzyo8'' \<and>
   status (fst (register demo_env empty_db greedy_body)) = 201 \<and>
   (\<exists>row. users (snd (register demo_env empty_db greedy_body)) = users empty_db @ [row] \<and>
      field row ''type'' = Str ''company'' \<and>
      field row ''company_id'' = Str (generateCompanyId (date_now demo_env) (random36 demo_env)))"
proof -
  have l: "8 \<le> length ''0.4fzyo82mvyr''"
    by simp
  have s: "status (fst (register demo_env empty_db greedy_body)) = 201"
    by (simp add: demo_register)
  note t = company_id_format [of 1700000000000 "''0.4fzyo82mvyr''" demo_env empty_db greedy_body]
  from t l have six: "length (take 6 (drop 2 ''0.4fzyo82mvyr'')) = 6"
    by blast
  from t s obtain row where row: "users (snd (register demo_env empty_db greedy_body)) = users empty_db @ [row]"
    "field row ''company_id'' \<noteq> Null \<longleftrightarrow> field row ''type'' = Str ''company''"
    "field row ''type'' = Str ''company'' \<longrightarrow>
           field row ''company_id'' = Str (generateCompanyId (date_now demo_env) (random36 demo_env))"
    by blast
  from row(1) have "row = acme"
    unfolding demo_register by (simp add: empty_db_def)
  then have ty: "field row ''type'' = Str ''company''"
    by (simp add: acme_def)
  with row have "field row ''company_id'' = Str (generateCompanyId (date_now demo_env) (random36 demo_env))"
    by blast
  with l six s row(1) ty demo_company_id show ?thesis
    by blast
qed

section \<open>Credentials with a colon in the password\<close>

lemma colon_user_fields:
  "field (obj_set alice ''password'' (Str ''$2a$10$pa:ssword'')) ''email'' = Str ''a@b.com''"
  "field (obj_set alice ''password'' (Str ''$2a$10$pa:ssword'')) ''id'' = Num 1"
  "field (obj_set alice ''password'' (Str ''$2a$10$pa:ssword'')) ''password'' = Str ''$2a$10$pa:ssword''"
  "field (obj_set alice ''password'' (Str ''$2a$10$pa:ssword'')) ''is_active'' = Num 1"
  "field (obj_set alice ''password'' (Str ''$2a$10$pa:ssword'')) ''is_login_enable'' = Num 1"
  by (simp_all add: field_obj_set alice_fields)

text \<open>
  C5, at the input \<open>a@b.com:pa:ssword\<close>: the destructuring keeps the first two pieces of
  \<open>credentials.split(':')\<close>, so the gate verifies \<open>pa\<close>. The user whose password is
  \<open>pa:ssword\<close> logs in through the login endpoint and is refused by the gate.
\<close>

theorem gate_cuts_password_at_second_colon:
  "split_credentials ''a@b.com:pa:ssword'' = (Some ''a@b.com'', Some ''pa'') \<and>
   status (fst (login demo_env colon_db
     [(''email'', Str ''a@b.com''), (''password'', Str ''pa:ssword'')])) = 200 \<and>
   authenticateUser demo_env colon_db colon_header = Inl (reject 401 ''Invalid credentials'')"
proof (intro conjI)
  show c: "split_credentials ''a@b.com:pa:ssword'' = (Some ''a@b.com'', Some ''pa'')"
    by (simp add: split_credentials_def at_index_def)
  show "status (fst (login demo_env colon_db
     [(''email'', Str ''a@b.com''), (''password'', Str ''pa:ssword'')])) = 200"
    by (simp add: login_def validate_login_def check_def notEmpty_def Let_def
      demo_env_def colon_db_def select_by_email_def colon_user_fields bindable_def
      compare_password_def)
  have d: "b64decode demo_env ''YUBiLmNvbTpwYTpzc3dvcmQ='' = ''a@b.com:pa:ssword''"
    by (simp add: demo_env_def)
  have b: "base64Credentials ''Basic YUBiLmNvbTpwYTpzc3dvcmQ='' = Some ''YUBiLmNvbTpwYTpzc3dvcmQ=''"
    by (simp add: base64Credentials_def at_index_def)
  show "authenticateUser demo_env colon_db colon_header = Inl (reject 401 ''Invalid credentials'')"
    by (simp add: authenticateUser_def colon_header_def startsWith_def b d c)
       (simp add: demo_env_def colon_db_def select_active_by_email_def colon_user_fields compare_password_def)
qed


section \<open>The gate on headers without credentials\<close>

lemma split_on_not_Nil: "split_on c s \<noteq> []"
  by (induction s) (auto split: list.splits)

lemma split_on_basic: "split_on CHR '' '' (''Basic '' @ rest) = ''Basic'' # split_on CHR '' '' rest"
  by simp

lemma basic_header_has_payload:
  assumes "startsWith h ''Basic ''"
  shows "\<exists>b. base64Credentials h = Some b"
proof -
  from assms have "take (length ''Basic '') h = ''Basic ''"
    unfolding startsWith_def .
  then have "h = ''Basic '' @ drop (length ''Basic '') h"
    by (metis append_take_drop_id)
  then obtain rest where h: "h = ''Basic '' @ rest" ..
  obtain p ps where "split_on CHR '' '' rest = p # ps"
    using split_on_not_Nil [of "CHR '' ''" rest] by (cases "split_on CHR '' '' rest") auto
  then have "base64Credentials h = Some p"
    unfolding h base64Credentials_def split_on_basic by (simp add: at_index_def)
  then show ?thesis ..
qed

lemma sql_eq_iff: "sql_eq v w \<longleftrightarrow> v \<noteq> Undefined \<and> v \<noteq> Null \<and> v = to_sql w"
  by (cases v) auto

lemma first_of_filter:
  "filter P xs = u # rest \<Longrightarrow> u \<in> set xs \<and> P u"
proof -
  assume "filter P xs = u # rest"
  then have "u \<in> set (filter P xs)" by simp
  then show ?thesis by simp
qed

lemma gate_pass:
  assumes "authenticateUser env d authorization = Inr u"
  shows "\<exists>h b e p. authorization = Some h \<and> startsWith h ''Basic '' \<and>
     base64Credentials h = Some b \<and>
     split_credentials (b64decode env b) = (Some e, Some p) \<and> e \<noteq> [] \<and> p \<noteq> [] \<and>
     u \<in> set (users d) \<and> field u ''email'' = Str e \<and> field u ''is_active'' = Num 1 \<and>
     truthy (field u ''is_login_enable'') \<and>
     compare_password env (Str p) (field u ''password'') = Inr True"
proof -
  from assms obtain h where h: "authorization = Some h" "startsWith h ''Basic ''"
    by (auto simp: authenticateUser_def split: option.splits if_splits)
  from assms h obtain b where b: "base64Credentials h = Some b"
    by (auto simp: authenticateUser_def split: option.splits if_splits)
  from assms h b obtain e p where c: "split_credentials (b64decode env b) = (Some e, Some p)"
      "e \<noteq> []" "p \<noteq> []"
    by (auto simp: authenticateUser_def split: option.splits if_splits prod.splits)
  from assms h b c obtain rest where s: "select_active_by_email d (Str e) = u # rest"
      and t: "truthy (field u ''is_login_enable'')"
      and v: "compare_password env (Str p) (field u ''password'') = Inr True"
    by (auto simp: authenticateUser_def split: option.splits if_splits list.splits sum.splits)
  from s have "u \<in> set (users d) \<and> sql_eq (field u ''email'') (Str e) \<and> sql_eq (field u ''is_active'') (Num 1)"
    unfolding select_active_by_email_def by (rule first_of_filter)
  then have "u \<in> set (users d)" "field u ''email'' = Str e" "field u ''is_active'' = Num 1"
    by (simp_all add: sql_eq_iff)
  with h b c t v show ?thesis
    by blast
qed

lemma gate_fails_carries_over:
  assumes "authenticateUser env d authorization = Inl r"
  shows "get_profile env d authorization = r"
    and "update_profile env d authorization body = (r, d)"
    and "logout env d authorization = r"
  using assms by (simp_all add: get_profile_def update_profile_def logout_def)

text \<open>
  C3, as stated, fails: the header \<open>Basic YUBiLmNvbTpzZWNyZXQx and more\<close> is not a
  well-formed Basic credential, yet the gate reads only the second piece of the header,
  which decodes to \<open>a@b.com:secret1\<close>, lets the request through as that user, and
  get-profile answers 200 with the user object.
\<close>

theorem gate_accepts_text_after_payload:
  "base64Credentials ''Basic YUBiLmNvbTpzZWNyZXQx and more'' = Some ''YUBiLmNvbTpzZWNyZXQx'' \<and>
   authenticateUser demo_env demo_db (Some ''Basic YUBiLmNvbTpzZWNyZXQx and more'') = Inr alice \<and>
   get_profile demo_env demo_db (Some ''Basic YUBiLmNvbTpzZWNyZXQx and more'') =
     success 200 ''Profile retrieved successfully'' (Some (userData (Some alice))) \<and>
   status (get_profile demo_env demo_db (Some ''Basic YUBiLmNvbTpzZWNyZXQx and more'')) = 200 \<and>
   field (userData (Some alice)) ''email'' = Str ''a@b.com''"
proof -
  have b: "base64Credentials ''Basic YUBiLmNvbTpzZWNyZXQx and more'' = Some ''YUBiLmNvbTpzZWNyZXQx''"
    by (simp add: base64Credentials_def at_index_def)
  have g: "authenticateUser demo_env demo_db (Some ''Basic YUBiLmNvbTpzZWNyZXQx and more'') = Inr alice"
    by (simp add: authenticateUser_def startsWith_def b)
       (simp add: split_credentials_def at_index_def demo_env_def demo_db_def
          select_active_by_email_def alice_fields compare_password_def)
  have p: "get_profile demo_env demo_db (Some ''Basic YUBiLmNvbTpzZWNyZXQx and more'') =
     success 200 ''Profile retrieved successfully'' (Some (userData (Some alice)))"
    by (simp add: get_profile_def g)
  have e: "field (userData (Some alice)) ''email'' = Str ''a@b.com''"
    by (simp add: userData_def field_obj_delete alice_fields)
  from b g p e show ?thesis
    by simp
qed

text \<open>
  C3, amended. When the Authorization header is absent, or does not start with
  \<open>Basic \<close>, or its second piece (what stands between the first and the second
  space) decodes to a text with no e-mail or no password (an empty piece, a piece that
  decodes to nothing, a text without a colon, an empty part on either side of it), the
  gate answers 401 without a user object, and get-profile, update-profile and logout
  answer just that and leave the table as it is. The \<open>catch\<close> with its 403 is not
  reached from the header: a header that starts with \<open>Basic \<close> always has a second
  piece. What follows the second piece is not examined. And the gate lets a request
  through only as an active user of the table whose e-mail and password the second piece
  carries and whose password verifies.
\<close>

theorem gate_rejects_malformed_header:
  "((authorization = None \<or>
      (\<exists>h. authorization = Some h \<and>
         (\<not> startsWith h ''Basic '' \<or>
          (\<forall>b. base64Credentials h = Some b \<longrightarrow>
             fst (split_credentials (b64decode env b)) \<in> {None, Some []} \<or>
             snd (split_credentials (b64decode env b)) \<in> {None, Some []})))) \<longrightarrow>
    (\<exists>r. authenticateUser env d authorization = Inl r \<and> status r = 401 \<and> user r = None \<and>
       get_profile env d authorization = r \<and>
       update_profile env d authorization body = (r, d) \<and>
       logout env d authorization = r)) \<and>
   (\<forall>u. authenticateUser env d authorization = Inr u \<longrightarrow>
      (\<exists>h b e p. authorization = Some h \<and> startsWith h ''Basic '' \<and>
         base64Credentials h = Some b \<and>
         split_credentials (b64decode env b) = (Some e, Some p) \<and> e \<noteq> [] \<and> p \<noteq> [] \<and>
         u \<in> set (users d) \<and> field u ''email'' = Str e \<and> field u ''is_active'' = Num 1 \<and>
         truthy (field u ''is_login_enable'') \<and>
         compare_password env (Str p) (field u ''password'') = Inr True))"
proof (intro conjI impI allI)
  assume m: "authorization = None \<or>
      (\<exists>h. authorization = Some h \<and>
         (\<not> startsWith h ''Basic '' \<or>
          (\<forall>b. base64Credentials h = Some b \<longrightarrow>
             fst (split_credentials (b64decode env b)) \<in> {None, Some []} \<or>
             snd (split_credentials (b64decode env b)) \<in> {None, Some []})))"
  have "\<exists>r. authenticateUser env d authorization = Inl r \<and> status r = 401"
  proof (cases authorization)
    case None
    then show ?thesis by (simp add: authenticateUser_def)
  next
    case (Some h)
    show ?thesis
    proof (cases "startsWith h ''Basic ''")
      case False
      with Some show ?thesis by (simp add: authenticateUser_def)
    next
      case True
      then obtain b where b: "base64Credentials h = Some b"
        using basic_header_has_payload by blast
      with m Some True
      have "fst (split_credentials (b64decode env b)) \<in> {None, Some []} \<or>
            snd (split_credentials (b64decode env b)) \<in> {None, Some []}"
        by auto
      with Some True b show ?thesis
        by (cases "split_credentials (b64decode env b)")
           (auto simp: authenticateUser_def split: option.splits)
    qed
  qed
  then obtain r where r: "authenticateUser env d authorization = Inl r" "status r = 401"
    by blast
  with gate_response_has_no_user [OF r(1)] gate_fails_carries_over [OF r(1)]
  show "\<exists>r. authenticateUser env d authorization = Inl r \<and> status r = 401 \<and> user r = None \<and>
       get_profile env d authorization = r \<and>
       update_profile env d authorization body = (r, d) \<and>
       logout env d authorization = r"
    by blast
next
  fix u assume "authenticateUser env d authorization = Inr u"
  then show "\<exists>h b e p. authorization = Some h \<and> startsWith h ''Basic '' \<and>
         base64Credentials h = Some b \<and>
         split_credentials (b64decode env b) = (Some e, Some p) \<and> e \<noteq> [] \<and> p \<noteq> [] \<and>
         u \<in> set (users d) \<and> field u ''email'' = Str e \<and> field u ''is_active'' = Num 1 \<and>
         truthy (field u ''is_login_enable'') \<and>
         compare_password env (Str p) (field u ''password'') = Inr True"
    by (rule gate_pass)
qed

theorem gate_rejects_malformed_header_witness:
  "base64Credentials ''Basic YUBiLmNvbQ=='' = Some ''YUBiLmNvbQ=='' \<and>
   split_credentials (b64decode demo_env ''YUBiLmNvbQ=='') = (Some ''a@b.com'', None) \<and>
   (\<exists>r. authenticateUser demo_env demo_db (Some ''Basic YUBiLmNvbQ=='') = Inl r \<and>
      status r = 401 \<and> user r = None \<and>
      get_profile demo_env demo_db (Some ''Basic YUBiLmNvbQ=='') = r \<and>
      update_profile demo_env demo_db (Some ''Basic YUBiLmNvbQ=='') [(''first_name'', Str ''Z'')] = (r, demo_db) \<and>
      logout demo_env demo_db (Some ''Basic YUBiLmNvbQ=='') = r) \<and>
   authenticateUser demo_env demo_db alice_header = Inr alice \<and>
   (\<exists>h b e p. alice_header = Some h \<and> startsWith h ''Basic '' \<and>
      base64Credentials h = Some b \<and>
      split_credentials (b64decode demo_env b) = (Some e, Some p) \<and>
      compare_password demo_env (Str p) (field alice ''password'') = Inr True)"
proof -
  have b: "base64Credentials ''Basic YUBiLmNvbQ=='' = Some ''YUBiLmNvbQ==''"
    by (simp add: base64Credentials_def at_index_def)
  have c: "split_credentials (b64decode demo_env ''YUBiLmNvbQ=='') = (Some ''a@b.com'', None)"
    by (simp add: split_credentials_def at_index_def demo_env_def)
  have m: "Some ''Basic YUBiLmNvbQ=='' = None \<or>
     (\<exists>h. Some ''Basic YUBiLmNvbQ=='' = Some h \<and>
        (\<not> startsWith h ''Basic '' \<or>
         (\<forall>b. base64Credentials h = Some b \<longrightarrow>
            fst (split_credentials (b64decode demo_env b)) \<in> {None, Some []} \<or>
            snd (split_credentials (b64decode demo_env b)) \<in> {None, Some []})))"
    using b c by simp
  from gate_rejects_malformed_header
         [of "Some ''Basic YUBiLmNvbQ==''" demo_env demo_db "[(''first_name'', Str ''Z'')]"] m
  have one: "\<exists>r. authenticateUser demo_env demo_db (Some ''Basic YUBiLmNvbQ=='') = Inl r \<and>
      status r = 401 \<and> user r = None \<and>
      get_profile demo_env demo_db (Some ''Basic YUBiLmNvbQ=='') = r \<and>
      update_profile demo_env demo_db (Some ''Basic YUBiLmNvbQ=='') [(''first_name'', Str ''Z'')] = (r, demo_db) \<and>
      logout demo_env demo_db (Some ''Basic YUBiLmNvbQ=='') = r"
    by blast
  from gate_rejects_malformed_header [of alice_header demo_env demo_db "[]"] demo_gate
  have two: "\<exists>h b e p. alice_header = Some h \<and> startsWith h ''Basic '' \<and>
      base64Credentials h = Some b \<and>
      split_credentials (b64decode demo_env b) = (Some e, Some p) \<and>
      compare_password demo_env (Str p) (field alice ''password'') = Inr True"
    by blast
  from b c one demo_gate two show ?thesis
    by blast
qed

section \<open>Accounts that are inactive or closed to login\<close>

lemma inactive_fields:
  "field (obj_set alice ''is_active'' (Num 0)) ''email'' = Str ''a@b.com''"
  "field (obj_set alice ''is_active'' (Num 0)) ''is_active'' = Num 0"
  "field (obj_set alice ''is_active'' (Num 0)) ''password'' = Str ''$2a$10$secret1''"
  by (simp_all add: field_obj_set alice_fields)

lemma closed_fields:
  "field (obj_set alice ''is_login_enable'' (Num 0)) ''email'' = Str ''a@b.com''"
  "field (obj_set alice ''is_login_enable'' (Num 0)) ''is_active'' = Num 1"
  "field (obj_set alice ''is_login_enable'' (Num 0)) ''is_login_enable'' = Num 0"
  "field (obj_set alice ''is_login_enable'' (Num 0)) ''password'' = Str ''$2a$10$secret1''"
  by (simp_all add: field_obj_set alice_fields)

text \<open>
  C4. Let \<open>u\<close> be the one row of the table with e-mail \<open>e\<close>, with is_active or
  is_login_enable false. A login request for \<open>e\<close> is answered 403 when it passes
  validation (400 when it does not), with no user object and no change of the table,
  whatever the password and whatever bcrypt says. A gated request whose header carries
  \<open>e\<close> is answered 401 or 403 by the gate, and so are get-profile, update-profile and
  logout.
\<close>

theorem blocked_user_cannot_authenticate:
  assumes "u \<in> set (users d)"
    and "sql_eq (field u ''email'') (Str e)"
    and "\<forall>r\<in>set (users d). sql_eq (field r ''email'') (Str e) \<longrightarrow> r = u"
    and "\<not> truthy (field u ''is_active'') \<or> \<not> truthy (field u ''is_login_enable'')"
  shows "(field body ''email'' = Str e \<longrightarrow>
           (status (fst (login env d body)) = 400 \<or> status (fst (login env d body)) = 403) \<and>
           (validate_login env body = [] \<longrightarrow> status (fst (login env d body)) = 403) \<and>
           user (fst (login env d body)) = None \<and> snd (login env d body) = d) \<and>
         ((\<forall>b. base64Credentials h = Some b \<longrightarrow>
              fst (split_credentials (b64decode env b)) = Some e) \<longrightarrow>
           (\<exists>r. authenticateUser env d (Some h) = Inl r \<and>
                (status r = 401 \<or> status r = 403) \<and> user r = None \<and>
                get_profile env d (Some h) = r \<and>
                update_profile env d (Some h) body' = (r, d) \<and>
                logout env d (Some h) = r))"
proof (intro conjI impI)
  assume e: "field body ''email'' = Str e"
  from assms(1,2) have "u \<in> set (select_by_email d (Str e))"
    by (simp add: select_by_email_def)
  then obtain x rest where x: "select_by_email d (Str e) = x # rest"
    by (cases "select_by_email d (Str e)") auto
  then have "x \<in> set (users d) \<and> sql_eq (field x ''email'') (Str e)"
    unfolding select_by_email_def by (rule first_of_filter)
  with assms(3) have "x = u" by blast
  with x have sel: "select_by_email d (Str e) = u # rest" by simp
  from assms(4) sel e
  have l: "login env d body =
     (if validate_login env body \<noteq> [] then (validation_errors (validate_login env body), d)
      else if \<not> truthy (field u ''is_active'') then (reject 403 ''Account is not active'', d)
      else (reject 403 ''Login is disabled for this account'', d))"
    by (auto simp: login_def Let_def bindable_def)
  show "status (fst (login env d body)) = 400 \<or> status (fst (login env d body)) = 403"
    by (simp add: l)
  show "status (fst (login env d body)) = 403" if "validate_login env body = []"
    using that by (simp add: l)
  show "user (fst (login env d body)) = None"
    by (simp add: l)
  show "snd (login env d body) = d"
    by (simp add: l)
next
  assume p: "\<forall>b. base64Credentials h = Some b \<longrightarrow>
              fst (split_credentials (b64decode env b)) = Some e"
  have "\<exists>r. authenticateUser env d (Some h) = Inl r"
  proof (cases "authenticateUser env d (Some h)")
    case (Inl r)
    then show ?thesis by blast
  next
    case (Inr x)
    from gate_pass [OF Inr] p obtain x: "x \<in> set (users d)" "field x ''email'' = Str e"
      "field x ''is_active'' = Num 1" "truthy (field x ''is_login_enable'')"
      by fastforce
    from x(2) have "sql_eq (field x ''email'') (Str e)"
      by (simp add: sql_eq_iff)
    with assms(3) x(1) have "x = u" by blast
    with x(3,4) assms(4) show ?thesis by simp
  qed
  then obtain r where r: "authenticateUser env d (Some h) = Inl r" ..
  with gate_response_status [OF r] gate_response_has_no_user [OF r]
    gate_fails_carries_over [OF r]
  show "\<exists>r. authenticateUser env d (Some h) = Inl r \<and>
                (status r = 401 \<or> status r = 403) \<and> user r = None \<and>
                get_profile env d (Some h) = r \<and>
                update_profile env d (Some h) body' = (r, d) \<and>
                logout env d (Some h) = r"
    by blast
qed

theorem blocked_user_cannot_authenticate_witness:
  "field (obj_set alice ''is_active'' (Num 0)) ''is_active'' = Num 0 \<and>
   compare_password demo_env (field alice_login ''password'')
     (field (obj_set alice ''is_active'' (Num 0)) ''password'') = Inr True \<and>
   status (fst (login demo_env inactive_db alice_login)) = 403 \<and>
   (\<exists>r. authenticateUser demo_env inactive_db alice_header = Inl r \<and>
        (status r = 401 \<or> status r = 403) \<and> user r = None \<and>
        get_profile demo_env inactive_db alice_header = r) \<and>
   field (obj_set alice ''is_login_enable'' (Num 0)) ''is_login_enable'' = Num 0 \<and>
   status (fst (login demo_env closed_db alice_login)) = 403 \<and>
   (\<exists>r. authenticateUser demo_env closed_db alice_header = Inl r \<and>
        (status r = 401 \<or> status r = 403) \<and> user r = None \<and>
        get_profile demo_env closed_db alice_header = r)"
proof -
  let ?u = "obj_set alice ''is_active'' (Num 0)"
  let ?w = "obj_set alice ''is_login_enable'' (Num 0)"
  have 1: "?u \<in> set (users inactive_db)"
    by (simp add: inactive_db_def)
  have 2: "sql_eq (field ?u ''email'') (Str ''a@b.com'')"
    by (simp add: inactive_fields)
  have 3: "\<forall>r\<in>set (users inactive_db). sql_eq (field r ''email'') (Str ''a@b.com'') \<longrightarrow> r = ?u"
    by (simp add: inactive_db_def)
  have 4: "\<not> truthy (field ?u ''is_active'') \<or> \<not> truthy (field ?u ''is_login_enable'')"
    by (simp add: inactive_fields)
  have 5: "?w \<in> set (users closed_db)"
    by (simp add: closed_db_def)
  have 6: "sql_eq (field ?w ''email'') (Str ''a@b.com'')"
    by (simp add: closed_fields)
  have 7: "\<forall>r\<in>set (users closed_db). sql_eq (field r ''email'') (Str ''a@b.com'') \<longrightarrow> r = ?w"
    by (simp add: closed_db_def)
  have 8: "\<not> truthy (field ?w ''is_active'') \<or> \<not> truthy (field ?w ''is_login_enable'')"
    by (simp add: closed_fields)
  have e: "field alice_login ''email'' = Str ''a@b.com''"
    by (simp add: alice_login_def)
  have v: "validate_login demo_env alice_login = []"
    by (simp add: validate_login_def check_def notEmpty_def alice_login_def demo_env_def)
  have b: "\<forall>b. base64Credentials ''Basic YUBiLmNvbTpzZWNyZXQx'' = Some b \<longrightarrow>
              fst (split_credentials (b64decode demo_env b)) = Some ''a@b.com''"
    by (simp add: base64Credentials_def at_index_def split_credentials_def demo_env_def)
  have p: "compare_password demo_env (field alice_login ''password'') (field ?u ''password'') = Inr True"
    by (simp add: compare_password_def alice_login_def inactive_fields demo_env_def)
  note t = blocked_user_cannot_authenticate
    [OF 1 2 3 4, of alice_login demo_env "''Basic YUBiLmNvbTpzZWNyZXQx''" "[]"]
  note c = blocked_user_cannot_authenticate
    [OF 5 6 7 8, of alice_login demo_env "''Basic YUBiLmNvbTpzZWNyZXQx''" "[]"]
  from t e v have l: "status (fst (login demo_env inactive_db alice_login)) = 403"
    by blast
  from t b have g: "\<exists>r. authenticateUser demo_env inactive_db alice_header = Inl r \<and>
        (status r = 401 \<or> status r = 403) \<and> user r = None \<and>
        get_profile demo_env inactive_db alice_header = r"
    unfolding alice_header_def by blast
  from c e v have l': "status (fst (login demo_env closed_db alice_login)) = 403"
    by blast
  from c b have g': "\<exists>r. authenticateUser demo_env closed_db alice_header = Inl r \<and>
        (status r = 401 \<or> status r = 403) \<and> user r = None \<and>
        get_profile demo_env closed_db alice_header = r"
    unfolding alice_header_def by blast
  from inactive_fields(2) p l g closed_fields(3) l' g' show ?thesis
    by blast
qed

section \<open>What a login returns and what it stores\<close>

lemma login_ok:
  assumes "status (fst (login env d body)) = 200"
  shows "\<exists>u rest. select_by_email d (field body ''email'') = u # rest \<and>
     login env d body = (success 200 ''Login successful'' (Some (userData (Some u))),
                         touch_last_login env (field u ''id'') d)"
proof (cases "select_by_email d (field body ''email'')")
  case Nil
  with assms show ?thesis
    by (simp add: login_def Let_def split: if_splits)
next
  case (Cons u rest)
  with assms have "login env d body = (success 200 ''Login successful'' (Some (userData (Some u))),
                         touch_last_login env (field u ''id'') d)"
    by (simp add: login_def Let_def split: if_splits sum.splits)
  with Cons show ?thesis
    by blast
qed

text \<open>
  C9. A successful login answers with the row it read before the update of last_login,
  without the password: the last_login of the response is the one of that row (NULL at a
  first login), while every row of the table with the user's id now holds the time of
  this login.
\<close>

theorem login_answers_with_row_read_before_update:
  assumes "login env d body = (r, d')" and "status r = 200"
  shows "\<exists>u rest. select_by_email d (field body ''email'') = u # rest \<and>
     user r = Some (userData (Some u)) \<and>
     field (userData (Some u)) ''last_login'' = field u ''last_login'' \<and>
     d' = touch_last_login env (field u ''id'') d \<and>
     length (users d') = length (users d) \<and>
     (\<forall>i<length (users d). sql_eq (field (users d ! i) ''id'') (field u ''id'') \<longrightarrow>
        field (users d' ! i) ''last_login'' = Num (sql_now env))"
proof -
  from assms have "status (fst (login env d body)) = 200"
    by simp
  from login_ok [OF this] assms(1) obtain u rest
    where s: "select_by_email d (field body ''email'') = u # rest"
    and r: "r = success 200 ''Login successful'' (Some (userData (Some u)))"
    and d': "d' = touch_last_login env (field u ''id'') d"
    by auto
  have a: "user r = Some (userData (Some u))"
    by (simp add: r)
  have b: "field (userData (Some u)) ''last_login'' = field u ''last_login''"
    by (simp add: userData_def field_obj_delete)
  have c: "length (users d') = length (users d)"
    by (simp add: d' touch_last_login_def)
  have e: "\<forall>i<length (users d). sql_eq (field (users d ! i) ''id'') (field u ''id'') \<longrightarrow>
        field (users d' ! i) ''last_login'' = Num (sql_now env)"
    by (simp add: d' touch_last_login_def field_obj_set)
  from s a b d' c e show ?thesis
    by blast
qed

theorem login_answers_with_row_read_before_update_witness:
  "login demo_env demo_db alice_login =
     (success 200 ''Login successful'' (Some (userData (Some alice))),
      touch_last_login demo_env (Num 1) demo_db) \<and>
   field (userData (Some alice)) ''last_login'' = Null \<and>
   field (users (touch_last_login demo_env (Num 1) demo_db) ! 0) ''last_login'' = Num 1700000000500 \<and>
   (\<exists>u rest. select_by_email demo_db (field alice_login ''email'') = u # rest \<and>
      user (success 200 ''Login successful'' (Some (userData (Some alice)))) = Some (userData (Some u)) \<and>
      field (userData (Some u)) ''last_login'' = field u ''last_login'')"
proof -
  have s: "status (success 200 ''Login successful'' (Some (userData (Some alice)))) = 200"
    by simp
  from login_answers_with_row_read_before_update [OF demo_login s]
  have x: "\<exists>u rest. select_by_email demo_db (field alice_login ''email'') = u # rest \<and>
      user (success 200 ''Login successful'' (Some (userData (Some alice)))) = Some (userData (Some u)) \<and>
      field (userData (Some u)) ''last_login'' = field u ''last_login''"
    by blast
  have a: "field (userData (Some alice)) ''last_login'' = Null"
    by (simp add: userData_def field_obj_delete alice_fields)
  have b: "field (users (touch_last_login demo_env (Num 1) demo_db) ! 0) ''last_login'' = Num 1700000000500"
    by (simp add: touch_last_login_def demo_db_def alice_fields field_obj_set demo_env_def)
  from demo_login a b x show ?thesis
    by blast
qed

section \<open>The statement of update-profile\<close>

lemma length_obj_set:
  "length (obj_set ob k v) = (if k \<in> fst ` set ob then length ob else Suc (length ob))"
proof (induction ob)
  case Nil
  show ?case by simp
next
  case (Cons p ob)
  then show ?case by (cases p) simp
qed

lemma obj_set_new: "k \<notin> fst ` set ob \<Longrightarrow> obj_set ob k v = ob @ [(k, v)]"
proof (induction ob)
  case Nil
  show ?case by simp
next
  case (Cons p ob)
  then show ?case by (cases p) auto
qed


lemma marks_obj_set:
  "\<forall>p\<in>set ob. snd p = m \<Longrightarrow> \<forall>p\<in>set (obj_set ob k m). snd p = m"
proof (induction ob)
  case Nil
  show ?case by simp
next
  case (Cons p ob)
  then show ?case by (cases p) simp
qed


lemma foldl_push_field:
  "foldl (push_field body) (us, vs) keys =
     (foldl (\<lambda>u k. assign u k ''?'') us
        (filter (\<lambda>k. field body k \<noteq> Undefined \<and> k \<noteq> ''password'') keys),
      vs @ map (field body) (filter (\<lambda>k. field body k \<noteq> Undefined \<and> k \<noteq> ''password'') keys))"
  by (induction keys arbitrary: us vs) (simp_all add: push_field_def)


lemma marks_plain:
  assumes "distinct ks" and "''__proto__'' \<notin> set ks" and "set ks \<inter> fst ` set us = {}"
  shows "foldl (\<lambda>u k. assign u k ''?'') us ks = us @ map (\<lambda>k. (k, ''?'')) ks"
  using assms
proof (induction ks arbitrary: us)
  case Nil
  show ?case by simp
next
  case (Cons k ks)
  from Cons.prems have k: "k \<noteq> ''__proto__''" "k \<notin> fst ` set us"
    by auto
  then have a: "assign us k ''?'' = us @ [(k, ''?'')]"
    by (simp add: assign_def obj_set_new)
  from Cons.prems have "distinct ks" "''__proto__'' \<notin> set ks"
    "set ks \<inter> fst ` set (us @ [(k, ''?'')]) = {}"
    by auto
  from Cons.IH [OF this] a show ?case
    by simp
qed

lemma build_update_Some:
  assumes "build_update body uid = Some (us, vs)"
    and "ks = filter (\<lambda>k. field body k \<noteq> Undefined \<and> k \<noteq> ''password'') (map fst body)"
    and "us0 = foldl (\<lambda>u k. assign u k ''?'') [] ks"
  shows "us = assign (if truthy (field body ''subscription'') then assign us0 ''plan'' ''?'' else us0)
                ''updated_at'' ''NOW()''"
    and "vs = map (field body) ks @
              (if truthy (field body ''subscription'') then [planMap (field body ''subscription'')] else []) @
              [uid]"
    and "ks \<noteq> []"
proof -
  have l: "foldl (push_field body) ([], []) (map fst body) = (us0, map (field body) ks)"
    by (simp add: foldl_push_field assms(2,3))
  from assms(1) show "ks \<noteq> []"
    by (auto simp: build_update_def l Let_def split: if_splits)
  from assms(1) show "us = assign (if truthy (field body ''subscription'') then assign us0 ''plan'' ''?'' else us0)
                ''updated_at'' ''NOW()''"
    by (auto simp: build_update_def l Let_def split: if_splits)
  from assms(1) show "vs = map (field body) ks @
              (if truthy (field body ''subscription'') then [planMap (field body ''subscription'')] else []) @
              [uid]"
    by (auto simp: build_update_def l Let_def split: if_splits)
qed

lemma build_update_plain:
  assumes b: "build_update body uid = Some (us, vs)"
    and ks: "ks = filter (\<lambda>k. field body k \<noteq> Undefined \<and> k \<noteq> ''password'') (map fst body)"
    and p: "planned = (if truthy (field body ''subscription'') then [''plan''] else [])"
    and d: "distinct ks" and n: "''__proto__'' \<notin> set ks"
    and u: "''updated_at'' \<notin> set ks" and i: "set planned \<inter> set ks = {}"
  shows "us = map (\<lambda>k. (k, ''?'')) (ks @ planned) @ [(''updated_at'', ''NOW()'')]"
    and "vs = map (field body) ks @ map (\<lambda>k. planMap (field body ''subscription'')) planned @ [uid]"
    and "placeholders us = length vs"
proof -
  define us0 where "us0 = foldl (\<lambda>u k. assign u k ''?'') [] ks"
  note s = build_update_Some [OF b ks us0_def]
  have f0: "us0 = map (\<lambda>k. (k, ''?'')) ks"
    using marks_plain [OF d n, of "[]"] by (simp add: us0_def)
  have f1: "(if truthy (field body ''subscription'') then assign us0 ''plan'' ''?'' else us0) =
      map (\<lambda>k. (k, ''?'')) (ks @ planned)"
  proof (cases "truthy (field body ''subscription'')")
    case True
    with i p have "''plan'' \<notin> fst ` set us0"
      by (simp add: f0 image_image)
    then have "assign us0 ''plan'' ''?'' = us0 @ [(''plan'', ''?'')]"
      by (simp add: assign_def obj_set_new)
    with True show ?thesis
      by (simp add: p f0)
  next
    case False
    then show ?thesis
      by (simp add: p f0)
  qed
  have "''updated_at'' \<notin> fst ` set (map (\<lambda>k. (k, ''?'')) (ks @ planned))"
    using u by (simp add: p image_Un image_image)
  from obj_set_new [OF this, of "''NOW()''"]
  have "assign (map (\<lambda>k. (k, ''?'')) (ks @ planned)) ''updated_at'' ''NOW()'' =
      map (\<lambda>k. (k, ''?'')) (ks @ planned) @ [(''updated_at'', ''NOW()'')]"
    by (simp add: assign_def)
  with s(1) f1 show us: "us = map (\<lambda>k. (k, ''?'')) (ks @ planned) @ [(''updated_at'', ''NOW()'')]"
    by simp
  show vs: "vs = map (field body) ks @ map (\<lambda>k. planMap (field body ''subscription'')) planned @ [uid]"
    by (simp add: s(2) p)
  show "placeholders us = length vs"
    by (simp add: us vs placeholders_def)
qed

lemma set_clause_marks:
  "set_clause env (map (\<lambda>k. (k, ''?'')) ks @ rest) (map f ks @ vs) r =
     set_clause env rest vs (foldl (\<lambda>r k. obj_set r k (to_sql (f k))) r ks)"
  by (induction ks arbitrary: r) simp_all

lemma field_foldl_obj_set:
  "field (foldl (\<lambda>r k. obj_set r k (g k)) r ks) k' = (if k' \<in> set ks then g k' else field r k')"
  by (induction ks arbitrary: r) (simp_all add: field_obj_set)

lemma set_clause_bound:
  assumes "us = map (\<lambda>k. (k, ''?'')) (ks @ planned) @ [(''updated_at'', ''NOW()'')]"
    and "vs = map f ks @ map (\<lambda>k. pv) planned @ [uid]"
    and "''updated_at'' \<notin> set ks" and "set planned \<inter> set ks = {}" and "''updated_at'' \<notin> set planned"
  shows "field (set_clause env us vs r) k =
     (if k = ''updated_at'' then Num (sql_now env)
      else if k \<in> set planned then to_sql pv
      else if k \<in> set ks then to_sql (f k)
      else field r k)"
proof -
  have "set_clause env us vs r =
     set_clause env [(''updated_at'', ''NOW()'')] [uid]
       (foldl (\<lambda>r k. obj_set r k (to_sql pv))
          (foldl (\<lambda>r k. obj_set r k (to_sql (f k))) r ks) planned)"
    using set_clause_marks [of env ks "map (\<lambda>k. (k, ''?'')) planned @ [(''updated_at'', ''NOW()'')]"
         f "map (\<lambda>k. pv) planned @ [uid]" r]
      set_clause_marks [of env planned "[(''updated_at'', ''NOW()'')]" "\<lambda>k. pv" "[uid]"]
    by (simp add: assms(1,2))
  then show ?thesis
    using assms(3,4,5) by (auto simp: field_obj_set field_foldl_obj_set)
qed

lemma planMap_names:
  "planMap (Str ''Basic'') = Num 0" "planMap (Str ''Silver'') = Num 1"
  "planMap (Str ''Premium'') = Num 2" "planMap (Str ''Enterprise'') = Num 3"
  by (simp_all add: planMap_def)

lemma to_sql_planMap: "to_sql (planMap v) = planMap v"
  by (simp add: planMap_def split: val.split)

lemma body_keys:
  "set (filter (\<lambda>k. field body k \<noteq> Undefined \<and> k \<noteq> ''password'') (map fst body)) =
     {k. field body k \<noteq> Undefined \<and> k \<noteq> ''password''}"
proof -
  have "field body k \<noteq> Undefined \<Longrightarrow> k \<in> fst ` set body" for k
    by (cases "map_of body k") (auto simp: field_def dest: map_of_SomeD intro: rev_image_eqI)
  then show ?thesis
    by auto
qed

lemma update_ok:
  assumes "status (fst (update_profile env d a body)) = 200"
  shows "\<exists>u us vs d'. authenticateUser env d a = Inr u \<and> validate_update env body = [] \<and>
     build_update body (field u ''id'') = Some (us, vs) \<and>
     execute_update env us vs d = Inr d' \<and>
     update_profile env d a body =
       (success 200 ''Profile updated successfully''
          (Some (userData (first_row (select_by_id d' (field u ''id''))))), d')"
proof (cases "authenticateUser env d a")
  case (Inl r)
  with assms gate_response_status [OF Inl] show ?thesis
    by (simp add: update_profile_def)
next
  case (Inr u)
  with assms have v: "validate_update env body = []"
    by (simp add: update_profile_def Let_def split: if_splits)
  from assms Inr v obtain us vs where b: "build_update body (field u ''id'') = Some (us, vs)"
    by (cases "build_update body (field u ''id'')") (auto simp: update_profile_def)
  from assms Inr v b obtain d' where e: "execute_update env us vs d = Inr d'"
    by (cases "execute_update env us vs d") (auto simp: update_profile_def)
  from Inr v b e have "update_profile env d a body =
      (success 200 ''Profile updated successfully''
          (Some (userData (first_row (select_by_id d' (field u ''id''))))), d')"
    by (simp add: update_profile_def)
  with Inr v b e show ?thesis
    by blast
qed

text \<open>
  The rows after an update that the model reads: the keys of the body are distinct, as
  those of an object are, each key that is pushed is a column, \<open>updated_at\<close> is not
  among them, nor \<open>plan\<close> beside a subscription.
\<close>

lemma updated_rows:
  assumes ok: "status (fst (update_profile env d a body)) = 200"
    and dist: "distinct (map fst body)"
    and cols: "\<forall>k. field body k \<noteq> Undefined \<and> k \<noteq> ''password'' \<longrightarrow> k \<in> set columns"
    and nu: "field body ''updated_at'' = Undefined"
    and np: "truthy (field body ''subscription'') \<longrightarrow> field body ''plan'' = Undefined"
  shows "\<exists>u. authenticateUser env d a = Inr u \<and> validate_update env body = [] \<and>
     length (users (snd (update_profile env d a body))) = length (users d) \<and>
     (\<forall>i<length (users d). sql_eq (field (users d ! i) ''id'') (field u ''id'') \<longrightarrow>
        (\<forall>k. field (users (snd (update_profile env d a body)) ! i) k =
          (if k = ''updated_at'' then Num (sql_now env)
           else if k = ''plan'' \<and> truthy (field body ''subscription'')
             then to_sql (planMap (field body ''subscription''))
           else if field body k \<noteq> Undefined \<and> k \<noteq> ''password'' then to_sql (field body k)
           else field (users d ! i) k)))"
proof -
  from update_ok [OF ok] obtain u us vs d' where u: "authenticateUser env d a = Inr u"
    and v: "validate_update env body = []"
    and b: "build_update body (field u ''id'') = Some (us, vs)"
    and e: "execute_update env us vs d = Inr d'"
    and r: "snd (update_profile env d a body) = d'"
    by auto
  define ks where "ks = filter (\<lambda>k. field body k \<noteq> Undefined \<and> k \<noteq> ''password'') (map fst body)"
  define planned where "planned = (if truthy (field body ''subscription'') then [''plan''] else [])"
  have m: "k \<in> set ks \<longleftrightarrow> field body k \<noteq> Undefined \<and> k \<noteq> ''password''" for k
    using body_keys [of body] by (auto simp: ks_def)
  have dk: "distinct ks"
    using dist by (simp add: ks_def distinct_map_filter)
  have pr: "''__proto__'' \<notin> set ks"
  proof
    assume "''__proto__'' \<in> set ks"
    with m cols have "''__proto__'' \<in> set columns" by blast
    then show False by (simp add: columns_def)
  qed
  have up: "''updated_at'' \<notin> set ks"
    using nu by (simp add: m)
  have pl: "set planned \<inter> set ks = {}"
    using np m [of "''plan''"] by (auto simp: planned_def)
  note s = build_update_plain [OF b ks_def planned_def dk pr up pl]
  have kc: "filter (\<lambda>k. k \<notin> set columns) (map fst us) = []"
  proof -
    have "set ks \<subseteq> set columns"
      using m cols by blast
    moreover have "''plan'' \<in> set columns" "''updated_at'' \<in> set columns"
      by (simp_all add: columns_def)
    then have "set planned \<subseteq> set columns" "''updated_at'' \<in> set columns"
      by (auto simp: planned_def)
    ultimately have "set (map fst us) \<subseteq> set columns"
      by (auto simp: s(1))
    then show ?thesis
      by (auto simp: filter_empty_conv)
  qed
  from e kc s(3) have d': "d' = d\<lparr>users := map (\<lambda>r. if sql_eq (field r ''id'') (last vs)
                                then set_clause env us vs r else r) (users d)\<rparr>"
    by (simp add: execute_update_def split: if_splits)
  have l: "last vs = field u ''id''"
    by (simp add: s(2))
  have pn: "''updated_at'' \<notin> set planned"
    by (simp add: planned_def)
  have f: "field (set_clause env us vs row) k =
          (if k = ''updated_at'' then Num (sql_now env)
           else if k = ''plan'' \<and> truthy (field body ''subscription'')
             then to_sql (planMap (field body ''subscription''))
           else if field body k \<noteq> Undefined \<and> k \<noteq> ''password'' then to_sql (field body k)
           else field row k)" for row k
    using set_clause_bound [OF s(1) s(2) up pl pn, of env row k]
    by (simp add: planned_def m)
  have "length (users (snd (update_profile env d a body))) = length (users d)"
    by (simp add: r d')
  moreover have "\<forall>i<length (users d). sql_eq (field (users d ! i) ''id'') (field u ''id'') \<longrightarrow>
        (\<forall>k. field (users (snd (update_profile env d a body)) ! i) k =
          (if k = ''updated_at'' then Num (sql_now env)
           else if k = ''plan'' \<and> truthy (field body ''subscription'')
             then to_sql (planMap (field body ''subscription''))
           else if field body k \<noteq> Undefined \<and> k \<noteq> ''password'' then to_sql (field body k)
           else field (users d ! i) k))"
    by (simp add: r d' l f)
  ultimately show ?thesis
    using u v by blast
qed

lemma plain_update_status:
  assumes "authenticateUser env d a = Inr u" and "validate_update env body = []"
    and "build_update body (field u ''id'') = Some (us, vs)"
    and "bindable vs" and "filter (\<lambda>k. k \<notin> set columns) (map fst us) = []"
    and "placeholders us = length vs"
  shows "status (fst (update_profile env d a body)) = 200"
  using assms by (simp add: update_profile_def execute_update_def)

lemma lax_gate: "authenticateUser lax_env demo_db alice_header = Inr alice"
  by (simp add: authenticateUser_def alice_header_def startsWith_def base64Credentials_def
      at_index_def split_credentials_def lax_env_def demo_env_def demo_db_def
      select_active_by_email_def alice_fields compare_password_def)

section \<open>The plan that goes with a subscription\<close>

text \<open>
  A subscription alone in the body: the statement is one the model reads, and the row of
  the user takes the plan of the mapping.
\<close>

lemma subscription_alone_sets_plan:
  assumes "status (fst (update_profile env d a body)) = 200"
    and "distinct (map fst body)"
    and "\<forall>k. field body k \<noteq> Undefined \<and> k \<noteq> ''password'' \<longrightarrow> k \<in> set columns"
    and "field body ''updated_at'' = Undefined" and "field body ''plan'' = Undefined"
    and "truthy (field body ''subscription'')"
  shows "\<exists>u. authenticateUser env d a = Inr u \<and>
     (\<forall>i<length (users d). sql_eq (field (users d ! i) ''id'') (field u ''id'') \<longrightarrow>
        field (users (snd (update_profile env d a body)) ! i) ''plan'' =
          planMap (field body ''subscription''))"
proof -
  from assms(5) have "truthy (field body ''subscription'') \<longrightarrow> field body ''plan'' = Undefined"
    by simp
  from updated_rows [OF assms(1,2,3,4) this] obtain u where u: "authenticateUser env d a = Inr u"
    and f: "\<forall>i<length (users d). sql_eq (field (users d ! i) ''id'') (field u ''id'') \<longrightarrow>
        (\<forall>k. field (users (snd (update_profile env d a body)) ! i) k =
          (if k = ''updated_at'' then Num (sql_now env)
           else if k = ''plan'' \<and> truthy (field body ''subscription'')
             then to_sql (planMap (field body ''subscription''))
           else if field body k \<noteq> Undefined \<and> k \<noteq> ''password'' then to_sql (field body k)
           else field (users d ! i) k))"
    by blast
  have "\<forall>i<length (users d). sql_eq (field (users d ! i) ''id'') (field u ''id'') \<longrightarrow>
        field (users (snd (update_profile env d a body)) ! i) ''plan'' =
          planMap (field body ''subscription'')"
  proof (intro allI impI)
    fix i assume "i < length (users d)" "sql_eq (field (users d ! i) ''id'') (field u ''id'')"
    with f assms(6) show "field (users (snd (update_profile env d a body)) ! i) ''plan'' =
          planMap (field body ''subscription'')"
      by (simp add: to_sql_planMap)
  qed
  with u show ?thesis
    by blast
qed

lemma demo_silver:
  "status (fst (update_profile demo_env demo_db alice_header [(''subscription'', Str ''Silver'')])) = 200"
  by (rule plain_update_status [OF demo_gate, where us = "[(''subscription'', ''?''), (''plan'', ''?''), (''updated_at'', ''NOW()'')]"
        and vs = "[Str ''Silver'', Num 1, Num 1]"])
     (simp_all add: validate_update_def check_optional_def check_def build_update_def push_field_def
        assign_def planMap_def Let_def bindable_def columns_def placeholders_def alice_fields)

lemma demo_subscription_alone:
  "field (users demo_db ! 0) ''plan'' = Num 0 \<and>
   field (users (snd (update_profile demo_env demo_db alice_header
      [(''subscription'', Str ''Silver'')])) ! 0) ''plan'' = Num 1"
proof -
  have i: "0 < length (users demo_db)" "sql_eq (field (users demo_db ! 0) ''id'') (field alice ''id'')"
    "field (users demo_db ! 0) ''plan'' = Num 0"
    by (simp_all add: demo_db_def alice_fields)
  have c: "\<forall>k. field [(''subscription'', Str ''Silver'')] k \<noteq> Undefined \<and> k \<noteq> ''password'' \<longrightarrow>
      k \<in> set columns"
    by (simp add: columns_def)
  from subscription_alone_sets_plan [OF demo_silver _ c] obtain u
    where "authenticateUser demo_env demo_db alice_header = Inr u"
      and "\<forall>i<length (users demo_db). sql_eq (field (users demo_db ! i) ''id'') (field u ''id'') \<longrightarrow>
        field (users (snd (update_profile demo_env demo_db alice_header
          [(''subscription'', Str ''Silver'')])) ! i) ''plan'' =
          planMap (field [(''subscription'', Str ''Silver'')] ''subscription'')"
    by auto
  with demo_gate i show ?thesis
    by (auto simp: planMap_def)
qed


section \<open>Which columns an update writes\<close>




lemma demo_meddling_build:
  "build_update meddling_body (Num 1) =
     Some ([(''first_name'', ''?''), (''created_by'', ''?''), (''type'', ''?''),
            (''updated_at'', ''NOW()'')], [Str ''Z'', Num 5, Str ''admin'', Num 1])"
  by (simp add: build_update_def push_field_def assign_def Let_def meddling_body_def)

lemma demo_meddling:
  "status (fst (update_profile demo_env demo_db alice_header meddling_body)) = 200"
  by (rule plain_update_status [OF demo_gate, where us = "[(''first_name'', ''?''), (''created_by'', ''?''), (''type'', ''?''),
            (''updated_at'', ''NOW()'')]" and vs = "[Str ''Z'', Num 5, Str ''admin'', Num 1]"])
     (simp_all add: validate_update_def check_optional_def check_def notEmpty_def bindable_def
        columns_def placeholders_def meddling_body_def demo_meddling_build [unfolded meddling_body_def]
        alice_fields)



text \<open>
  C10, at the body \<open>{plan: 7, subscription: "Enterprise"}\<close>: the loop pushes 7 for the
  key plan, the subscription branch pushes 3 without a new key, so the statement has three
  placeholders and four values, with 7 standing where plan is set and 3 where the id is
  compared. A store that refuses the execute makes the answer 500 and the stored plan
  stays 0; a store that binds the values in order compares the id with 3, changes no row
  of this table, and the stored plan stays 0 as well: in neither case is it 3.
\<close>

theorem plan_and_subscription_misalign_values:
  "build_update both_body (Num 1) =
     Some ([(''plan'', ''?''), (''subscription'', ''?''), (''updated_at'', ''NOW()'')],
           [Num 7, Str ''Enterprise'', Num 3, Num 1]) \<and>
   query_text [(''plan'', ''?''), (''subscription'', ''?''), (''updated_at'', ''NOW()'')] =
     ''UPDATE users SET plan = ?, subscription = ?, updated_at = NOW() WHERE id = ?'' \<and>
   placeholders [(''plan'', ''?''), (''subscription'', ''?''), (''updated_at'', ''NOW()'')] = 3 \<and>
   length [Num 7, Str ''Enterprise'', Num 3, Num 1] = 4 \<and>
   planMap (field both_body ''subscription'') = Num 3 \<and>
   update_profile demo_env demo_db alice_header both_body =
     (internal_error WrongArguments, demo_db) \<and>
   field (users demo_db ! 0) ''plan'' = Num 0 \<and>
   status (fst (update_profile lax_env demo_db alice_header both_body)) = 200 \<and>
   field (users (snd (update_profile lax_env demo_db alice_header both_body)) ! 0) ''plan'' = Num 0"
proof -
  let ?us = "[(''plan'', ''?''), (''subscription'', ''?''), (''updated_at'', ''NOW()'')]"
  let ?vs = "[Num 7, Str ''Enterprise'', Num 3, Num 1]"
  have b: "build_update both_body (Num 1) = Some (?us, ?vs)"
    by (simp add: build_update_def push_field_def assign_def Let_def both_body_def planMap_def)
  have q: "query_text ?us =
     ''UPDATE users SET plan = ?, subscription = ?, updated_at = NOW() WHERE id = ?''"
    by (simp add: query_text_def)
  have p: "placeholders ?us = 3"
    by (simp add: placeholders_def)
  have m: "planMap (field both_body ''subscription'') = Num 3"
    by (simp add: both_body_def planMap_def)
  have c: "filter (\<lambda>k. k \<notin> set columns) (map fst ?us) = []"
    by (simp add: columns_def)
  have vd: "validate_update demo_env both_body = []"
    by (simp add: validate_update_def check_optional_def check_def both_body_def)
  have vl: "validate_update lax_env both_body = []"
    by (simp add: validate_update_def check_optional_def check_def both_body_def)
  have ed: "execute_update demo_env ?us ?vs demo_db = Inl WrongArguments"
    by (simp add: execute_update_def bindable_def c p) (simp add: demo_env_def)
  have el: "execute_update lax_env ?us ?vs demo_db = Inr (demo_db\<lparr>users := [alice]\<rparr>)"
    by (simp add: execute_update_def bindable_def c p q lax_env_def by_position_def)
       (simp add: demo_db_def alice_fields)
  have ud: "update_profile demo_env demo_db alice_header both_body =
     (internal_error WrongArguments, demo_db)"
    by (simp add: update_profile_def demo_gate vd alice_fields b ed)
  have ul: "update_profile lax_env demo_db alice_header both_body =
     (success 200 ''Profile updated successfully''
        (Some (userData (first_row (select_by_id (demo_db\<lparr>users := [alice]\<rparr>) (Num 1))))),
      demo_db\<lparr>users := [alice]\<rparr>)"
    by (simp add: update_profile_def lax_gate vl alice_fields b el)
  have a: "field (users demo_db ! 0) ''plan'' = Num 0"
    by (simp add: demo_db_def alice_fields)
  have s: "status (fst (update_profile lax_env demo_db alice_header both_body)) = 200"
    by (simp add: ul)
  have f: "field (users (snd (update_profile lax_env demo_db alice_header both_body)) ! 0) ''plan'' = Num 0"
    by (simp add: ul alice_fields)
  from b q p m ud a s f show ?thesis
    by simp
qed

section \<open>Passwords stay out of responses\<close>

lemma register_user_no_password:
  "\<forall>u. user (fst (register env d body)) = Some u \<longrightarrow> ''password'' \<notin> fst ` set u"
  by (simp add: register_def Let_def userData_no_password split: sum.split prod.split)

lemma login_user_no_password:
  "\<forall>u. user (fst (login env d body)) = Some u \<longrightarrow> ''password'' \<notin> fst ` set u"
  by (simp add: login_def Let_def userData_no_password split: sum.split prod.split list.split)

lemma get_profile_user_no_password:
  "\<forall>u. user (get_profile env d a) = Some u \<longrightarrow> ''password'' \<notin> fst ` set u"
  by (simp add: get_profile_def gate_response_has_no_user userData_no_password split: sum.split)

lemma update_profile_user_no_password:
  "\<forall>u. user (fst (update_profile env d a body)) = Some u \<longrightarrow> ''password'' \<notin> fst ` set u"
  by (simp add: update_profile_def Let_def gate_response_has_no_user userData_no_password
      split: sum.split prod.split option.split)

lemma logout_no_user: "user (logout env d a) = None"
  by (simp add: logout_def gate_response_has_no_user split: sum.split)

text \<open>
  C2. Whatever the request, the user object of a response of register, login, get-profile
  or update-profile has no key \<open>password\<close>; the response of logout has no user object.
\<close>

theorem no_password_in_any_response:
  "(\<forall>u. user (fst (register env d body)) = Some u \<longrightarrow> ''password'' \<notin> fst ` set u) \<and>
   (\<forall>u. user (fst (login env d body)) = Some u \<longrightarrow> ''password'' \<notin> fst ` set u) \<and>
   (\<forall>u. user (get_profile env d a) = Some u \<longrightarrow> ''password'' \<notin> fst ` set u) \<and>
   (\<forall>u. user (fst (update_profile env d a body)) = Some u \<longrightarrow> ''password'' \<notin> fst ` set u) \<and>
   user (logout env d a) = None"
  using register_user_no_password [of env d body] login_user_no_password [of env d body]
    get_profile_user_no_password [of env d a] update_profile_user_no_password [of env d a body]
    logout_no_user [of env d a]
  by blast

theorem no_password_in_any_response_witness:
  "user (fst (register demo_env empty_db greedy_body)) = Some (userData (Some acme)) \<and>
   ''password'' \<notin> fst ` set (userData (Some acme)) \<and>
   user (fst (login demo_env demo_db alice_login)) = Some (userData (Some alice)) \<and>
   user (get_profile demo_env demo_db alice_header) = Some (userData (Some alice)) \<and>
   ''password'' \<notin> fst ` set (userData (Some alice)) \<and>
   (\<exists>u. user (fst (update_profile demo_env demo_db alice_header meddling_body)) = Some u \<and>
      ''password'' \<notin> fst ` set u)"

proof -
  have r: "user (fst (register demo_env empty_db greedy_body)) = Some (userData (Some acme))"
    by (simp add: demo_register)
  have l: "user (fst (login demo_env demo_db alice_login)) = Some (userData (Some alice))"
    by (simp add: demo_login)
  have g: "user (get_profile demo_env demo_db alice_header) = Some (userData (Some alice))"
    by (simp add: get_profile_def demo_gate)
  from update_ok [OF demo_meddling]
  obtain u where u: "user (fst (update_profile demo_env demo_db alice_header meddling_body)) = Some u"
    by auto
  from no_password_in_any_response [of demo_env empty_db greedy_body alice_header] r
  have 1: "''password'' \<notin> fst ` set (userData (Some acme))"
    by blast
  from no_password_in_any_response [of demo_env demo_db alice_login alice_header] l
  have 2: "''password'' \<notin> fst ` set (userData (Some alice))"
    by blast
  from no_password_in_any_response [of demo_env demo_db meddling_body alice_header] u
  have 3: "''password'' \<notin> fst ` set u"
    by blast
  from r 1 l g 2 u 3 show ?thesis
    by blast
qed

end
